theory Spec2Isabelle
  imports Main
begin

section \<open>The field/shape resolver of the TileDB-ML readers\<close>

text \<open>
  A shallow embedding of \<^verbatim>\<open>tiledb/ml/readers/types.py\<close>: the frozen dataclass
  \<^verbatim>\<open>ArrayParams\<close>, its \<^verbatim>\<open>__post_init__\<close> (resolution of fields, key dimension,
  non-empty domain and secondary slices) and its \<^verbatim>\<open>to_tensor_schema\<close> (choice of the
  tensor kind and of the transform).
\<close>

subsection \<open>Data model\<close>

text \<open>
  The dtypes of a dimension. Only \<^verbatim>\<open>np.issubdtype(dtype, np.integer)\<close> is asked of
  them: it holds of the signed and unsigned integer types and of nothing else.
\<close>

datatype dtype =
    Int8 | Int16 | Int32 | Int64
  | UInt8 | UInt16 | UInt32 | UInt64
  | Float32 | Float64
  | Datetime64 | Bytes | Str

fun issubdtype_integer :: "dtype \<Rightarrow> bool" where
  "issubdtype_integer Int8 = True"
| "issubdtype_integer Int16 = True"
| "issubdtype_integer Int32 = True"
| "issubdtype_integer Int64 = True"
| "issubdtype_integer UInt8 = True"
| "issubdtype_integer UInt16 = True"
| "issubdtype_integer UInt32 = True"
| "issubdtype_integer UInt64 = True"
| "issubdtype_integer Float32 = False"
| "issubdtype_integer Float64 = False"
| "issubdtype_integer Datetime64 = False"
| "issubdtype_integer Bytes = False"
| "issubdtype_integer Str = False"

record dim =
  dim_name :: string
  dim_dtype :: dtype

text \<open>A coordinate of the non-empty domain: integers, or strings for string dimensions.\<close>

datatype coord = IntCoord int | StrCoord string

type_synonym bounds = "coord \<times> coord"

text \<open>
  What the resolver reads of a \<^verbatim>\<open>tiledb.Array\<close>: the attribute names
  (\<^verbatim>\<open>array.attr(i).name\<close> for \<^verbatim>\<open>i < nattr\<close>), the dimensions (\<^verbatim>\<open>array.dim(i)\<close> for
  \<^verbatim>\<open>i < ndim\<close>), the value of \<^verbatim>\<open>array.nonempty_domain()\<close> and the flag
  \<^verbatim>\<open>array.schema.sparse\<close>. The non-empty domain is a tuple of bounds, one per dimension,
  or \<^verbatim>\<open>None\<close> for an array that was never written.
\<close>

record tiledb_array =
  attr_names :: "string list"
  dims :: "dim list"
  nonempty_domain :: "bounds list option"
  sparse :: bool

definition ndim :: "tiledb_array \<Rightarrow> nat" where
  "ndim a = length (dims a)"

text \<open>\<^verbatim>\<open>array.dim(name)\<close>: the dimension of that name; the storage engine raises when
  there is none.\<close>

fun dim_by_name :: "dim list \<Rightarrow> string \<Rightarrow> dim option" where
  "dim_by_name [] n = None"
| "dim_by_name (d # ds) n = (if dim_name d = n then Some d else dim_by_name ds n)"

datatype tensor_kind = DENSE | SPARSE_COO | SPARSE_CSR | RAGGED

text \<open>\<^verbatim>\<open>key_dim: Union[int, str]\<close>.\<close>

datatype key_sel = KeyIdx int | KeyName string

text \<open>\<^verbatim>\<open>Union[int, slice, Sequence[int]]\<close>, the value of a secondary slice.\<close>

datatype slice_sel =
    SliceIndex int
  | SliceRange "int option" "int option" "int option"
  | SliceIndices "int list"

text \<open>
  The constructor arguments (\<open>fields_seq\<close> is \<^verbatim>\<open>fields\<close>). The dictionary
  \<^verbatim>\<open>secondary_slices\<close> is the list of its items in iteration order.
\<close>

record array_params =
  array :: tiledb_array
  key_dim :: key_sel
  fields_seq :: "string list"
  secondary_slices :: "(string \<times> slice_sel) list"
  tensor_kind :: "tensor_kind option"

text \<open>The dictionary \<^verbatim>\<open>_tensor_schema_kwargs\<close> that \<^verbatim>\<open>__post_init__\<close> stores.\<close>

record kwargs =
  kw_array :: tiledb_array
  kw_key_dim_index :: int
  kw_fields :: "string list"
  kw_all_dims :: "string list"
  kw_ned :: "bounds list"
  kw_secondary_slices :: "nat \<rightharpoonup> slice_sel"
  kw_query_attrs :: "string list"
  kw_query_dims :: "string list"

text \<open>
  The messages of the two kinds of \<^verbatim>\<open>ValueError\<close> that resolution raises: the f-string of
  line 52 with the field it quotes, and the message of \<^verbatim>\<open>list.index\<close> for a value that is
  not in the list.
\<close>

datatype message = Unknown_field string | Not_in_list string

text \<open>
  The text of a message. \<^verbatim>\<open>list.index\<close> formats its message as \<^verbatim>\<open>"%R is not in list"\<close>, with
  Python's \<^verbatim>\<open>repr\<close> of the value; \<^verbatim>\<open>repr\<close> of a string (its choice of quotes and its escapes
  rest on the interpreter's character tables) is the parameter \<open>repr\<close>.
\<close>

fun message_text :: "(string \<Rightarrow> string) \<Rightarrow> message \<Rightarrow> string" where
  "message_text repr (Unknown_field f) =
     ''Unknown attribute or dimension '' @ [CHR 0x27] @ f @ [CHR 0x27]"
| "message_text repr (Not_in_list x) = repr x @ '' is not in list''"

datatype error =
    ValueError message
  | TypeError
  | IndexError
  | NotImplementedError string
  | TileDBError

subsection \<open>Resolution: \<^verbatim>\<open>__post_init__\<close>\<close>

text \<open>\<^verbatim>\<open>xs.index(x)\<close>: the first position of \<open>x\<close>, or no position.\<close>

fun list_index :: "'a list \<Rightarrow> 'a \<Rightarrow> nat option" where
  "list_index [] x = None"
| "list_index (y # ys) x = (if y = x then Some 0 else map_option Suc (list_index ys x))"

text \<open>The loop over the requested fields, with the lists \<^verbatim>\<open>attrs\<close> and \<^verbatim>\<open>dims\<close> it
  appends to.\<close>

fun fields_loop ::
  "string list \<Rightarrow> string list \<Rightarrow> string list \<Rightarrow> string list \<Rightarrow> string list
    \<Rightarrow> error + (string list \<times> string list)" where
  "fields_loop all_attrs all_dims [] attrs dms = Inr (attrs, dms)"
| "fields_loop all_attrs all_dims (f # fs) attrs dms =
     (if f \<in> set all_attrs then fields_loop all_attrs all_dims fs (attrs @ [f]) dms
      else if f \<in> set all_dims then fields_loop all_attrs all_dims fs attrs (dms @ [f])
      else Inl (ValueError (Unknown_field f)))"

text \<open>Lines 44 to 55: the triple \<^verbatim>\<open>(final_fields, attrs, dims)\<close>.\<close>

definition resolve_fields ::
  "string list \<Rightarrow> string list \<Rightarrow> string list
    \<Rightarrow> error + (string list \<times> string list \<times> string list)" where
  "resolve_fields all_attrs all_dims fs =
     (if fs \<noteq> [] then
        (case fields_loop all_attrs all_dims fs [] [] of
           Inl e \<Rightarrow> Inl e
         | Inr (attrs, dms) \<Rightarrow> Inr (fs, attrs, dms))
      else Inr (all_attrs, all_attrs, []))"

text \<open>Lines 58 to 62: \<^verbatim>\<open>key_dim_index\<close>.\<close>

fun key_dim_index :: "string list \<Rightarrow> key_sel \<Rightarrow> error + int" where
  "key_dim_index all_dims (KeyIdx i) = Inr i"
| "key_dim_index all_dims (KeyName n) =
     (case list_index all_dims n of
        None \<Rightarrow> Inl (ValueError (Not_in_list n))
      | Some i \<Rightarrow> Inr (int i))"

text \<open>\<^verbatim>\<open>xs[0], xs[k] = xs[k], xs[0]\<close> for \<open>k > 0\<close>: reading \<^verbatim>\<open>xs[k]\<close> out of range raises
  \<^verbatim>\<open>IndexError\<close>.\<close>

definition swap_first :: "'a list \<Rightarrow> nat \<Rightarrow> error + 'a list" where
  "swap_first xs k =
     (if k < length xs then Inr (xs[0 := xs ! k, k := xs ! 0]) else Inl IndexError)"

text \<open>Lines 64 to 67: both lists are swapped only when \<^verbatim>\<open>key_dim_index > 0\<close>.\<close>

definition swap_key ::
  "string list \<Rightarrow> bounds list \<Rightarrow> int \<Rightarrow> error + (string list \<times> bounds list)" where
  "swap_key all_dims ned k =
     (if k > 0 then
        (case swap_first all_dims (nat k) of
           Inl e \<Rightarrow> Inl e
         | Inr all_dims' \<Rightarrow>
            (case swap_first ned (nat k) of
               Inl e \<Rightarrow> Inl e
             | Inr ned' \<Rightarrow> Inr (all_dims', ned')))
      else Inr (all_dims, ned))"

text \<open>Lines 69 to 73: the loop over the items of \<^verbatim>\<open>secondary_slices\<close>, with the
  dictionary \<^verbatim>\<open>secondary_slices_indices\<close> it fills.\<close>

fun slices_loop ::
  "string list \<Rightarrow> (string \<times> slice_sel) list \<Rightarrow> (nat \<rightharpoonup> slice_sel)
    \<Rightarrow> error + (nat \<rightharpoonup> slice_sel)" where
  "slices_loop all_dims [] acc = Inr acc"
| "slices_loop all_dims ((d, s) # rest) acc =
     (case list_index all_dims d of
        None \<Rightarrow> Inl (ValueError (Not_in_list d))
      | Some i \<Rightarrow> slices_loop all_dims rest (if i > 0 then acc(i \<mapsto> s) else acc))"

text \<open>
  The whole of \<^verbatim>\<open>__post_init__\<close>, in the order of the source: the fields (lines 44 to 55),
  \<^verbatim>\<open>list(self.array.nonempty_domain())\<close> (line 57, a \<^verbatim>\<open>TypeError\<close> when the domain is
  \<^verbatim>\<open>None\<close>), the key index, the swap, the secondary slices, the stored dictionary.
\<close>

definition post_init :: "array_params \<Rightarrow> error + kwargs" where
  "post_init p =
     (let all_attrs = attr_names (array p);
          all_dims = map dim_name (dims (array p))
      in case resolve_fields all_attrs all_dims (fields_seq p) of
           Inl e \<Rightarrow> Inl e
         | Inr (final_fields, attrs, dms) \<Rightarrow>
            (case nonempty_domain (array p) of
               None \<Rightarrow> Inl TypeError
             | Some ned \<Rightarrow>
                (case key_dim_index all_dims (key_dim p) of
                   Inl e \<Rightarrow> Inl e
                 | Inr k \<Rightarrow>
                    (case swap_key all_dims ned k of
                       Inl e \<Rightarrow> Inl e
                     | Inr (all_dims', ned') \<Rightarrow>
                        (case slices_loop all_dims' (secondary_slices p) Map.empty of
                           Inl e \<Rightarrow> Inl e
                         | Inr ssi \<Rightarrow>
                            Inr \<lparr> kw_array = array p,
                                  kw_key_dim_index = k,
                                  kw_fields = final_fields,
                                  kw_all_dims = all_dims',
                                  kw_ned = ned',
                                  kw_secondary_slices = ssi,
                                  kw_query_attrs = attrs,
                                  kw_query_dims = dms \<rparr>)))))"

subsection \<open>Choice of the tensor schema: \<^verbatim>\<open>to_tensor_schema\<close>\<close>

text \<open>
  A value of the transform table: \<^verbatim>\<open>Union[Callable[[Any], Any], bool]\<close>. A callable is an
  object, and Python tests its truth through \<^verbatim>\<open>__bool__\<close> or \<^verbatim>\<open>__len__\<close>: a function is
  true, a callable object with length 0 (an empty \<^verbatim>\<open>torch.nn.Sequential()\<close>) is false. A
  callable is modelled with that truth value beside it.
\<close>

datatype 'f transform = TBool bool | TCallable bool 'f

text \<open>Python's truth value of such a value, which \<^verbatim>\<open>not\<close> in lines 111 and 122 tests.\<close>

fun truthy :: "'f transform \<Rightarrow> bool" where
  "truthy (TBool b) = b"
| "truthy (TCallable t f) = t"

text \<open>\<^verbatim>\<open>transforms.get(kind, True)\<close>.\<close>

definition get_transform :: "(tensor_kind \<rightharpoonup> 'f transform) \<Rightarrow> tensor_kind \<Rightarrow> 'f transform" where
  "get_transform transforms k = (case transforms k of None \<Rightarrow> TBool True | Some t \<Rightarrow> t)"

text \<open>
  Modelled from the spec: the module \<^verbatim>\<open>_tensor_schema\<close> (the table
  \<^verbatim>\<open>TensorSchemaFactories\<close>, the classes it constructs and \<^verbatim>\<open>MappedTensorSchema\<close>) is
  not among the sources. The spec has a family of schema variants selected by a
  kind-keyed factory, and a Mapped decorator wrapping any of them with a transform: a
  schema is the kind with the keyword arguments it was built from, or a schema wrapped
  with a callable.
\<close>

datatype 'f tensor_schema =
    TensorSchema tensor_kind kwargs
  | MappedTensorSchema "'f tensor_schema" 'f

text \<open>\<^verbatim>\<open>str\<close> of a member of the enumeration \<^verbatim>\<open>TensorKind\<close> (declared in the absent module
  \<^verbatim>\<open>_tensor_schema\<close>, taken as a plain \<^verbatim>\<open>enum.Enum\<close>), as the f-string of line 124 prints it.\<close>

fun kind_str :: "tensor_kind \<Rightarrow> string" where
  "kind_str DENSE = ''TensorKind.DENSE''"
| "kind_str SPARSE_COO = ''TensorKind.SPARSE_COO''"
| "kind_str SPARSE_CSR = ''TensorKind.SPARSE_CSR''"
| "kind_str RAGGED = ''TensorKind.RAGGED''"

definition slicing_msg :: string where
  "slicing_msg = ''Slicing on secondary indices is only implemented for dense arrays''"

definition mapping_msg :: "tensor_kind \<Rightarrow> string" where
  "mapping_msg k = ''Mapping to '' @ kind_str k @ '' tensors is not implemented''"

text \<open>Lines 106 to 109: \<^verbatim>\<open>all(np.issubdtype(array.dim(d).dtype, np.integer) for d in ds)\<close>,
  which stops at the first dimension that is not integer.\<close>

fun all_integer :: "dim list \<Rightarrow> string list \<Rightarrow> error + bool" where
  "all_integer dms [] = Inr True"
| "all_integer dms (n # ns) =
     (case dim_by_name dms n of
        None \<Rightarrow> Inl TileDBError
      | Some d \<Rightarrow> if issubdtype_integer (dim_dtype d) then all_integer dms ns else Inr False)"

text \<open>Lines 102 to 114: the tensor kind, pinned or inferred.\<close>

definition choose_kind ::
  "array_params \<Rightarrow> kwargs \<Rightarrow> (tensor_kind \<rightharpoonup> 'f transform) \<Rightarrow> error + tensor_kind" where
  "choose_kind p kw transforms =
     (case tensor_kind p of
        Some k \<Rightarrow> Inr k
      | None \<Rightarrow>
         if \<not> sparse (array p) then Inr DENSE
         else
           (case all_integer (dims (array p)) (drop 1 (kw_all_dims kw)) of
              Inl e \<Rightarrow> Inl e
            | Inr b \<Rightarrow>
               if \<not> b then Inr RAGGED
               else if ndim (array p) \<noteq> 2 \<or> \<not> truthy (get_transform transforms SPARSE_CSR)
                 then Inr SPARSE_COO
               else Inr SPARSE_CSR))"

text \<open>Lines 116 to 130, for the kind chosen. \<^verbatim>\<open>transform is not True\<close> holds of a
  callable only, since a false boolean has raised before.\<close>

definition build_schema ::
  "array_params \<Rightarrow> kwargs \<Rightarrow> (tensor_kind \<rightharpoonup> 'f transform) \<Rightarrow> tensor_kind
    \<Rightarrow> error + 'f tensor_schema" where
  "build_schema p kw transforms k =
     (if k \<noteq> DENSE \<and> length (secondary_slices p) > 0
        then Inl (NotImplementedError slicing_msg)
      else
        (let transform = get_transform transforms k in
         if \<not> truthy transform then Inl (NotImplementedError (mapping_msg k))
         else
           (let schema = TensorSchema k kw in
            case transform of
              TBool b \<Rightarrow> Inr schema
            | TCallable t f \<Rightarrow> Inr (MappedTensorSchema schema f))))"

text \<open>The method, on an instance with arguments \<open>p\<close> whose stored dictionary is \<open>kw\<close>.\<close>

definition to_tensor_schema ::
  "array_params \<Rightarrow> kwargs \<Rightarrow> (tensor_kind \<rightharpoonup> 'f transform) \<Rightarrow> error + 'f tensor_schema" where
  "to_tensor_schema p kw transforms =
     (case choose_kind p kw transforms of
        Inl e \<Rightarrow> Inl e
      | Inr k \<Rightarrow> build_schema p kw transforms k)"

subsection \<open>Auxiliary definitions and example inputs\<close>

text \<open>The condition of the last branch of the fields loop: neither an attribute nor a
  dimension.\<close>

definition unknown_field :: "string list \<Rightarrow> string list \<Rightarrow> string \<Rightarrow> bool" where
  "unknown_field all_attrs all_dims f = (f \<notin> set all_attrs \<and> f \<notin> set all_dims)"

text \<open>The arguments of the constructor, packed.\<close>

definition params_of ::
  "tiledb_array \<Rightarrow> key_sel \<Rightarrow> string list \<Rightarrow> (string \<times> slice_sel) list \<Rightarrow> tensor_kind option
    \<Rightarrow> array_params" where
  "params_of a k fs ss tk =
     \<lparr> array = a, key_dim = k, fields_seq = fs, secondary_slices = ss, tensor_kind = tk \<rparr>"

text \<open>A dense array of three integer dimensions and two attributes.\<close>

definition image_array :: tiledb_array where
  "image_array =
     \<lparr> attr_names = [''a1'', ''a2''],
       dims = [\<lparr>dim_name = ''d0'', dim_dtype = Int64\<rparr>,
               \<lparr>dim_name = ''d1'', dim_dtype = Int64\<rparr>,
               \<lparr>dim_name = ''d2'', dim_dtype = Int64\<rparr>],
       nonempty_domain =
         Some [(IntCoord 0, IntCoord 9), (IntCoord 0, IntCoord 3), (IntCoord 0, IntCoord 5)],
       sparse = False \<rparr>"

text \<open>An array in which the name \<open>x\<close> is both an attribute and a dimension.\<close>

definition overlap_array :: tiledb_array where
  "overlap_array =
     \<lparr> attr_names = [''x'', ''v''],
       dims = [\<lparr>dim_name = ''x'', dim_dtype = Int32\<rparr>,
               \<lparr>dim_name = ''y'', dim_dtype = Int32\<rparr>],
       nonempty_domain = Some [(IntCoord 0, IntCoord 4), (IntCoord 1, IntCoord 7)],
       sparse = False \<rparr>"

text \<open>Whether the dimension that \<^verbatim>\<open>array.dim(n)\<close> returns has a dtype that is not an
  integer type.\<close>

definition non_integer_dim :: "dim list \<Rightarrow> string \<Rightarrow> bool" where
  "non_integer_dim ds n =
     (case dim_by_name ds n of
        None \<Rightarrow> False
      | Some d \<Rightarrow> \<not> issubdtype_integer (dim_dtype d))"

text \<open>
  The kind as the specification words it: the pinned kind; else DENSE for dense storage;
  else RAGGED for a non-integer dimension after the first; else SPARSE_COO when the array
  is not 2-dimensional or the transform table maps SPARSE_CSR to False; else SPARSE_CSR.
\<close>

definition specified_kind ::
  "array_params \<Rightarrow> kwargs \<Rightarrow> (tensor_kind \<rightharpoonup> 'f transform) \<Rightarrow> tensor_kind" where
  "specified_kind p kw transforms =
     (case tensor_kind p of
        Some k \<Rightarrow> k
      | None \<Rightarrow>
         if \<not> sparse (array p) then DENSE
         else if list_ex (non_integer_dim (dims (array p))) (drop 1 (kw_all_dims kw)) then RAGGED
         else if ndim (array p) \<noteq> 2 \<or> transforms SPARSE_CSR = Some (TBool False)
           then SPARSE_COO
         else SPARSE_CSR)"

text \<open>The table maps the kind to a callable that is false in Python's sense.\<close>

definition falsy_callable_at :: "(tensor_kind \<rightharpoonup> 'f transform) \<Rightarrow> tensor_kind \<Rightarrow> bool" where
  "falsy_callable_at transforms k =
     (case transforms k of
        Some (TCallable t f) \<Rightarrow> \<not> t
      | Some (TBool b) \<Rightarrow> False
      | None \<Rightarrow> False)"

text \<open>A sparse matrix with integer dimensions, and the dictionaries that the resolver
  stores for it and for the dense array when the key dimension is the first one.\<close>

definition sparse_matrix :: tiledb_array where
  "sparse_matrix =
     \<lparr> attr_names = [''v''],
       dims = [\<lparr>dim_name = ''r'', dim_dtype = Int64\<rparr>,
               \<lparr>dim_name = ''c'', dim_dtype = Int64\<rparr>],
       nonempty_domain = Some [(IntCoord 0, IntCoord 9), (IntCoord 0, IntCoord 4)],
       sparse = True \<rparr>"

definition sparse_matrix_kwargs :: "(nat \<rightharpoonup> slice_sel) \<Rightarrow> kwargs" where
  "sparse_matrix_kwargs ssi =
     \<lparr> kw_array = sparse_matrix, kw_key_dim_index = 0, kw_fields = [''v''],
       kw_all_dims = [''r'', ''c''],
       kw_ned = [(IntCoord 0, IntCoord 9), (IntCoord 0, IntCoord 4)],
       kw_secondary_slices = ssi,
       kw_query_attrs = [''v''], kw_query_dims = [] \<rparr>"

definition image_kwargs :: "(nat \<rightharpoonup> slice_sel) \<Rightarrow> kwargs" where
  "image_kwargs ssi =
     \<lparr> kw_array = image_array, kw_key_dim_index = 0, kw_fields = [''a1'', ''a2''],
       kw_all_dims = [''d0'', ''d1'', ''d2''],
       kw_ned = [(IntCoord 0, IntCoord 9), (IntCoord 0, IntCoord 3), (IntCoord 0, IntCoord 5)],
       kw_secondary_slices = ssi,
       kw_query_attrs = [''a1'', ''a2''], kw_query_dims = [] \<rparr>"

text \<open>A result that is a raised \<^verbatim>\<open>NotImplementedError\<close>.\<close>

fun is_not_implemented :: "error + 'a \<Rightarrow> bool" where
  "is_not_implemented (Inl (NotImplementedError m)) = True"
| "is_not_implemented r = False"

text \<open>
  The treatment of the transform table as the specification words it, for every instance:
  on the entry of the chosen kind, False fails with \<^verbatim>\<open>NotImplementedError\<close>, True or no
  entry returns the schema as the factory built it, and a callable returns it wrapped.
\<close>

definition transform_entry_applied ::
  "array_params \<Rightarrow> kwargs \<Rightarrow> (tensor_kind \<rightharpoonup> 'f transform) \<Rightarrow> bool" where
  "transform_entry_applied p kw transforms =
     (case choose_kind p kw transforms of
        Inl e \<Rightarrow> False
      | Inr k \<Rightarrow>
         (case transforms k of
            None \<Rightarrow> to_tensor_schema p kw transforms = Inr (TensorSchema k kw)
          | Some (TBool b) \<Rightarrow>
             if b then to_tensor_schema p kw transforms = Inr (TensorSchema k kw)
             else is_not_implemented (to_tensor_schema p kw transforms)
          | Some (TCallable t f) \<Rightarrow>
             to_tensor_schema p kw transforms = Inr (MappedTensorSchema (TensorSchema k kw) f)))"

text \<open>A result that is a raised \<^verbatim>\<open>ValueError\<close>.\<close>

fun raises_value_error :: "error + 'a \<Rightarrow> bool" where
  "raises_value_error (Inl (ValueError m)) = True"
| "raises_value_error r = False"

text \<open>The array has a non-empty domain, and the key index (given, or found for the name)
  is positive and lies beyond the list of dimensions or beyond the non-empty domain, so
  that the swap of lines 66 and 67 raises.\<close>

definition swap_out_of_range :: "array_params \<Rightarrow> bool" where
  "swap_out_of_range p =
     (case nonempty_domain (array p) of
        None \<Rightarrow> False
      | Some ned \<Rightarrow>
         (case key_dim_index (map dim_name (dims (array p))) (key_dim p) of
            Inl e \<Rightarrow> False
          | Inr k \<Rightarrow> 0 < k \<and> (ndim (array p) \<le> nat k \<or> length ned \<le> nat k)))"

text \<open>\<^verbatim>\<open>repr\<close> of a string without quote, backslash or unprintable character.\<close>

definition plain_repr :: "string \<Rightarrow> string" where
  "plain_repr x = [CHR 0x27] @ x @ [CHR 0x27]"

text \<open>The dense array before anything was written to it.\<close>

definition unwritten_array :: tiledb_array where
  "unwritten_array = image_array \<lparr> nonempty_domain := None \<rparr>"

text \<open>The position of the dimension that a key selector denotes: an index within the
  dimensions, or the position of a dimension name.\<close>

definition key_position :: "array_params \<Rightarrow> nat option" where
  "key_position p =
     (case key_dim p of
        KeyIdx i \<Rightarrow> if 0 \<le> i \<and> nat i < ndim (array p) then Some (nat i) else None
      | KeyName n \<Rightarrow> list_index (map dim_name (dims (array p))) n)"

text \<open>A list without its element at position \<open>k\<close>.\<close>

definition without_nth :: "nat \<Rightarrow> 'a list \<Rightarrow> 'a list" where
  "without_nth k xs = take k xs @ drop (Suc k) xs"

text \<open>
  The ordering as the specification words it: behind the key dimension, the other
  dimensions follow in the order they have in the array.
\<close>

definition others_keep_order :: "array_params \<Rightarrow> kwargs \<Rightarrow> bool" where
  "others_keep_order p kw =
     (case key_position p of
        None \<Rightarrow> False
      | Some k \<Rightarrow>
         drop 1 (kw_all_dims kw) = without_nth k (map dim_name (dims (array p))))"

text \<open>The transposition of the positions \<open>0\<close> and \<open>k\<close>.\<close>

definition swap_pos :: "nat \<Rightarrow> nat \<Rightarrow> nat" where
  "swap_pos k j = (if j = 0 then k else if j = k then 0 else j)"

text \<open>What the resolver stores for the dense array with its last dimension as key.\<close>

definition image_kwargs_key2 :: kwargs where
  "image_kwargs_key2 =
     \<lparr> kw_array = image_array, kw_key_dim_index = 2, kw_fields = [''a1'', ''a2''],
       kw_all_dims = [''d2'', ''d1'', ''d0''],
       kw_ned = [(IntCoord 0, IntCoord 5), (IntCoord 0, IntCoord 3), (IntCoord 0, IntCoord 9)],
       kw_secondary_slices = Map.empty,
       kw_query_attrs = [''a1'', ''a2''], kw_query_dims = [] \<rparr>"

text \<open>The same with the dimension \<open>d1\<close> as key.\<close>

definition image_kwargs_key1 :: kwargs where
  "image_kwargs_key1 =
     \<lparr> kw_array = image_array, kw_key_dim_index = 1, kw_fields = [''a1'', ''a2''],
       kw_all_dims = [''d1'', ''d0'', ''d2''],
       kw_ned = [(IntCoord 0, IntCoord 3), (IntCoord 0, IntCoord 9), (IntCoord 0, IntCoord 5)],
       kw_secondary_slices = Map.empty,
       kw_query_attrs = [''a1'', ''a2''], kw_query_dims = [] \<rparr>"

section \<open>Properties\<close>

subsection \<open>Lists and the loops of the resolver\<close>

lemma list_index_None: "list_index xs x = None \<longleftrightarrow> x \<notin> set xs"
  by (induction xs) auto

lemma list_index_mem: "list_index xs x = Some i \<Longrightarrow> x \<in> set xs"
  using list_index_None [of xs x] by auto

lemma list_index_Some:
  "list_index xs x = Some i \<Longrightarrow> i < length xs \<and> xs ! i = x \<and> (\<forall>j<i. xs ! j \<noteq> x)"
proof (induction xs arbitrary: i)
  case Nil
  then show ?case by simp
next
  case (Cons y ys)
  show ?case
  proof (cases "y = x")
    case True
    with Cons.prems show ?thesis by simp
  next
    case False
    with Cons.prems obtain j where j: "list_index ys x = Some j" "i = Suc j"
      by auto
    from Cons.IH [OF j(1)] False j(2) show ?thesis
      by (auto simp: nth_Cons split: nat.splits)
  qed
qed

lemma list_index_zero: "list_index xs x = Some 0 \<longleftrightarrow> xs \<noteq> [] \<and> xs ! 0 = x"
  by (cases xs) auto

lemma fields_loop_eq:
  "fields_loop A D fs as ds =
     (case find (unknown_field A D) fs of
        Some f \<Rightarrow> Inl (ValueError (Unknown_field f))
      | None \<Rightarrow> Inr (as @ filter (\<lambda>f. f \<in> set A) fs, ds @ filter (\<lambda>f. f \<notin> set A) fs))"
  by (induction fs arbitrary: as ds) (auto simp: unknown_field_def split: option.splits)

lemma resolve_fields_Inl:
  "resolve_fields A D fs = Inl e \<longleftrightarrow>
     (\<exists>f. find (unknown_field A D) fs = Some f \<and> e = ValueError (Unknown_field f))"
  by (cases fs) (auto simp: resolve_fields_def fields_loop_eq split: option.splits sum.splits)

lemma resolve_fields_Inr:
  "resolve_fields A D fs = Inr (ff, as, ds) \<longleftrightarrow>
     find (unknown_field A D) fs = None \<and>
     (if fs \<noteq> [] then ff = fs \<and> as = filter (\<lambda>f. f \<in> set A) fs \<and> ds = filter (\<lambda>f. f \<notin> set A) fs
      else ff = A \<and> as = A \<and> ds = [])"
  by (cases fs) (auto simp: resolve_fields_def fields_loop_eq split: option.splits sum.splits)

lemma key_dim_index_Inl:
  "key_dim_index ad sel = Inl e \<longleftrightarrow>
     (\<exists>n. sel = KeyName n \<and> n \<notin> set ad \<and> e = ValueError (Not_in_list n))"
  by (cases sel) (auto simp: list_index_None dest: list_index_mem split: option.splits)

lemma swap_first_Inr:
  "swap_first xs k = Inr ys \<longleftrightarrow> k < length xs \<and> ys = xs[0 := xs ! k, k := xs ! 0]"
  by (auto simp: swap_first_def)

lemma set_swap_first: "k < length xs \<Longrightarrow> set (xs[0 := xs ! k, k := xs ! 0]) = set xs"
  by (rule set_swap) auto

lemma swap_key_Inr:
  "swap_key ad nd k = Inr (ad', nd') \<longleftrightarrow>
     (if k > 0 then nat k < length ad \<and> nat k < length nd
          \<and> ad' = ad[0 := ad ! nat k, nat k := ad ! 0]
          \<and> nd' = nd[0 := nd ! nat k, nat k := nd ! 0]
      else ad' = ad \<and> nd' = nd)"
  by (auto simp: swap_key_def swap_first_def split: sum.splits)

lemma swap_key_Inl:
  "swap_key ad nd k = Inl e \<longleftrightarrow>
     k > 0 \<and> (length ad \<le> nat k \<or> length nd \<le> nat k) \<and> e = IndexError"
  by (auto simp: swap_key_def swap_first_def split: sum.splits)

lemma swap_key_set:
  "swap_key ad nd k = Inr (ad', nd') \<Longrightarrow> set ad' = set ad \<and> length ad' = length ad"
  by (auto simp: swap_key_Inr set_swap_first split: if_splits)

lemma slices_loop_Inl:
  "slices_loop ad ss acc = Inl e \<longleftrightarrow>
     (\<exists>d. find (\<lambda>d. d \<notin> set ad) (map fst ss) = Some d \<and> e = ValueError (Not_in_list d))"
proof (induction ss arbitrary: acc)
  case Nil
  then show ?case by simp
next
  case (Cons x ss)
  obtain d s where x: "x = (d, s)" by (cases x)
  show ?case
  proof (cases "list_index ad d")
    case None
    then have "d \<notin> set ad" by (simp add: list_index_None)
    with None x show ?thesis by auto
  next
    case (Some i)
    then have "d \<in> set ad" by (rule list_index_mem)
    with Some x Cons.IH show ?thesis by simp
  qed
qed

subsection \<open>The shape of a resolution\<close>

lemma post_init_Inr:
  assumes "post_init p = Inr kw"
  obtains ff as ds nd0 k ad nd ssi where
    "resolve_fields (attr_names (array p)) (map dim_name (dims (array p))) (fields_seq p)
       = Inr (ff, as, ds)"
    "nonempty_domain (array p) = Some nd0"
    "key_dim_index (map dim_name (dims (array p))) (key_dim p) = Inr k"
    "swap_key (map dim_name (dims (array p))) nd0 k = Inr (ad, nd)"
    "slices_loop ad (secondary_slices p) Map.empty = Inr ssi"
    "kw = \<lparr> kw_array = array p, kw_key_dim_index = k, kw_fields = ff, kw_all_dims = ad,
            kw_ned = nd, kw_secondary_slices = ssi, kw_query_attrs = as, kw_query_dims = ds \<rparr>"
  using assms unfolding post_init_def Let_def
  by (auto split: sum.splits prod.splits option.splits)

lemma post_init_unknown_field:
  assumes "find (unknown_field (attr_names (array p)) (map dim_name (dims (array p))))
             (fields_seq p) = Some f"
  shows "post_init p = Inl (ValueError (Unknown_field f))"
proof -
  from assms have
    "resolve_fields (attr_names (array p)) (map dim_name (dims (array p))) (fields_seq p)
      = Inl (ValueError (Unknown_field f))"
    by (simp add: resolve_fields_Inl)
  then show ?thesis by (simp add: post_init_def)
qed

lemma post_init_Inl_cases:
  assumes "post_init p = Inl e"
  shows "(\<exists>f. find (unknown_field (attr_names (array p)) (map dim_name (dims (array p))))
                 (fields_seq p) = Some f
            \<and> e = ValueError (Unknown_field f))
       \<or> (\<exists>d. e = ValueError (Not_in_list d))
       \<or> e = TypeError
       \<or> e = IndexError"
  using assms unfolding post_init_def Let_def
  by (auto simp: resolve_fields_Inl key_dim_index_Inl swap_key_Inl slices_loop_Inl
        split: sum.splits prod.splits option.splits)

lemma not_in_list_text: "message_text repr (Not_in_list d) \<noteq> xs @ [CHR 0x27]"
proof
  assume "message_text repr (Not_in_list d) = xs @ [CHR 0x27]"
  then have "last (repr d @ '' is not in list'') = last (xs @ [CHR 0x27])" by simp
  then show False by simp
qed

lemma unknown_field_text_inj:
  "message_text repr (Unknown_field f)
     = ''Unknown attribute or dimension '' @ [CHR 0x27] @ g @ [CHR 0x27] \<longleftrightarrow> f = g"
  by simp

lemma mapping_msg_neq: "mapping_msg k \<noteq> slicing_msg"
  by (simp add: mapping_msg_def slicing_msg_def)

subsection \<open>Unknown fields\<close>

text \<open>
  Claim C3. When some requested field is neither an attribute name nor a dimension name
  of the array, \<^verbatim>\<open>__post_init__\<close> fails in its first loop with a \<^verbatim>\<open>ValueError\<close> whose
  message is \<^verbatim>\<open>Unknown attribute or dimension\<close> followed by the first such field between
  single quotes. When every requested field is an attribute or a dimension, whatever
  resolution returns or raises, it is no \<^verbatim>\<open>ValueError\<close> with a message of that form,
  however \<^verbatim>\<open>repr\<close> formats the names.
\<close>

theorem unknown_field_rejected:
  fixes p :: array_params
  defines "A \<equiv> attr_names (array p)" and "D \<equiv> map dim_name (dims (array p))"
  shows "(f \<in> set (fields_seq p) \<and> f \<notin> set A \<and> f \<notin> set D \<longrightarrow>
           (\<exists>g m. find (unknown_field A D) (fields_seq p) = Some g
               \<and> g \<in> set (fields_seq p) \<and> g \<notin> set A \<and> g \<notin> set D
               \<and> post_init p = Inl (ValueError m)
               \<and> message_text repr m
                   = ''Unknown attribute or dimension '' @ [CHR 0x27] @ g @ [CHR 0x27]))
       \<and> ((\<forall>g \<in> set (fields_seq p). g \<in> set A \<or> g \<in> set D) \<longrightarrow>
           (\<forall>g m. post_init p = Inl (ValueError m) \<longrightarrow>
              message_text repr m
                \<noteq> ''Unknown attribute or dimension '' @ [CHR 0x27] @ g @ [CHR 0x27]))"
proof (intro conjI impI allI)
  assume f: "f \<in> set (fields_seq p) \<and> f \<notin> set A \<and> f \<notin> set D"
  then have "find (unknown_field A D) (fields_seq p) \<noteq> None"
    by (auto simp: find_None_iff unknown_field_def)
  then obtain g where g: "find (unknown_field A D) (fields_seq p) = Some g" by auto
  then have "g \<in> set (fields_seq p)" "unknown_field A D g"
    by (auto simp: find_Some_iff)
  moreover from g have "post_init p = Inl (ValueError (Unknown_field g))"
    unfolding A_def D_def by (rule post_init_unknown_field)
  moreover have "message_text repr (Unknown_field g)
      = ''Unknown attribute or dimension '' @ [CHR 0x27] @ g @ [CHR 0x27]"
    by simp
  ultimately show "\<exists>g m. find (unknown_field A D) (fields_seq p) = Some g
               \<and> g \<in> set (fields_seq p) \<and> g \<notin> set A \<and> g \<notin> set D
               \<and> post_init p = Inl (ValueError m)
               \<and> message_text repr m
                   = ''Unknown attribute or dimension '' @ [CHR 0x27] @ g @ [CHR 0x27]"
    using g unfolding unknown_field_def by blast
next
  fix g m
  assume known: "\<forall>g \<in> set (fields_seq p). g \<in> set A \<or> g \<in> set D"
    and err: "post_init p = Inl (ValueError m)"
  from known have none: "find (unknown_field A D) (fields_seq p) = None"
    by (auto simp: find_None_iff unknown_field_def)
  from post_init_Inl_cases [OF err] none obtain d where "m = Not_in_list d"
    unfolding A_def D_def by auto
  then show "message_text repr m
      \<noteq> ''Unknown attribute or dimension '' @ [CHR 0x27] @ g @ [CHR 0x27]"
    using not_in_list_text [of repr d "''Unknown attribute or dimension '' @ [CHR 0x27] @ g"]
    by simp
qed

theorem unknown_field_rejected_witness:
  "''zz'' \<in> set (fields_seq (params_of image_array (KeyIdx 0) [''a1'', ''zz''] [] None))
   \<and> ''zz'' \<notin> set (attr_names image_array)
   \<and> ''zz'' \<notin> set (map dim_name (dims image_array))
   \<and> post_init (params_of image_array (KeyIdx 0) [''a1'', ''zz''] [] None)
       = Inl (ValueError (Unknown_field ''zz''))
   \<and> message_text plain_repr (Unknown_field ''zz'')
       = ''Unknown attribute or dimension '' @ [CHR 0x27] @ ''zz'' @ [CHR 0x27]
   \<and> post_init (params_of image_array (KeyName ''kk'') [''a2'', ''d1''] [] None)
       = Inl (ValueError (Not_in_list ''kk''))
   \<and> message_text plain_repr (Not_in_list ''kk'')
       = [CHR 0x27] @ ''kk'' @ [CHR 0x27] @ '' is not in list''"
proof -
  let ?p = "params_of image_array (KeyIdx 0) [''a1'', ''zz''] [] None"
  let ?q = "params_of image_array (KeyName ''kk'') [''a2'', ''d1''] [] None"
  have q: "post_init ?q = Inl (ValueError (Not_in_list ''kk''))"
    by (simp add: post_init_def params_of_def image_array_def resolve_fields_def Let_def)
  have z: "post_init ?p = Inl (ValueError (Unknown_field ''zz''))"
    by (simp add: post_init_def params_of_def image_array_def resolve_fields_def Let_def)
  from unknown_field_rejected [where f = "''zz''" and p = ?p and repr = plain_repr]
    unknown_field_rejected [where f = "''zz''" and p = ?q and repr = plain_repr] q z
  show ?thesis
    by (simp add: params_of_def image_array_def unknown_field_def plain_repr_def)
qed

subsection \<open>The default field list\<close>

text \<open>
  Claim C7. When the \<^verbatim>\<open>fields\<close> sequence is empty and resolution succeeds, the resolved
  field list is the list of all attribute names of the array, in the array's order; the
  query options ask for exactly these attributes and for no dimension.
\<close>

theorem empty_fields_default:
  assumes "post_init p = Inr kw" and "fields_seq p = []"
  shows "kw_fields kw = attr_names (array p)
       \<and> kw_query_attrs kw = attr_names (array p)
       \<and> kw_query_dims kw = []"
proof -
  from assms(1) obtain ff as ds nd0 k ad nd ssi where
    rf: "resolve_fields (attr_names (array p)) (map dim_name (dims (array p))) (fields_seq p)
       = Inr (ff, as, ds)"
    and kw: "kw = \<lparr> kw_array = array p, kw_key_dim_index = k, kw_fields = ff, kw_all_dims = ad,
            kw_ned = nd, kw_secondary_slices = ssi, kw_query_attrs = as, kw_query_dims = ds \<rparr>"
    by (rule post_init_Inr)
  from rf assms(2) have "ff = attr_names (array p)" "as = attr_names (array p)" "ds = []"
    by (simp_all add: resolve_fields_Inr)
  with kw show ?thesis by simp
qed

theorem empty_fields_default_witness:
  "post_init (params_of image_array (KeyName ''d1'') [] [] None) =
     Inr \<lparr> kw_array = image_array, kw_key_dim_index = 1, kw_fields = [''a1'', ''a2''],
           kw_all_dims = [''d1'', ''d0'', ''d2''],
           kw_ned = [(IntCoord 0, IntCoord 3), (IntCoord 0, IntCoord 9), (IntCoord 0, IntCoord 5)],
           kw_secondary_slices = Map.empty,
           kw_query_attrs = [''a1'', ''a2''], kw_query_dims = [] \<rparr>
   \<and> fields_seq (params_of image_array (KeyName ''d1'') [] [] None) = []
   \<and> attr_names (array (params_of image_array (KeyName ''d1'') [] [] None)) = [''a1'', ''a2'']"
proof -
  have r: "post_init (params_of image_array (KeyName ''d1'') [] [] None) =
     Inr \<lparr> kw_array = image_array, kw_key_dim_index = 1, kw_fields = [''a1'', ''a2''],
           kw_all_dims = [''d1'', ''d0'', ''d2''],
           kw_ned = [(IntCoord 0, IntCoord 3), (IntCoord 0, IntCoord 9), (IntCoord 0, IntCoord 5)],
           kw_secondary_slices = Map.empty,
           kw_query_attrs = [''a1'', ''a2''], kw_query_dims = [] \<rparr>"
    by (simp add: post_init_def params_of_def image_array_def resolve_fields_def swap_key_def
          swap_first_def Let_def)
  have e: "fields_seq (params_of image_array (KeyName ''d1'') [] [] None) = []"
    by (simp add: params_of_def)
  from empty_fields_default [OF r e] r e show ?thesis
    by (simp add: params_of_def image_array_def)
qed

subsection \<open>A name that is both an attribute and a dimension\<close>

text \<open>
  Claim C9. A requested field whose name is an attribute name and also a dimension name
  is classified as an attribute: after a successful resolution it is among the
  attributes of the query and not among its dimensions, since the loop tests
  membership in the attributes first.
\<close>

theorem attribute_wins:
  assumes "post_init p = Inr kw"
    and "f \<in> set (fields_seq p)"
    and "f \<in> set (attr_names (array p))"
    and "f \<in> set (map dim_name (dims (array p)))"
  shows "f \<in> set (kw_query_attrs kw) \<and> f \<notin> set (kw_query_dims kw)"
proof -
  from assms(1) obtain ff as ds nd0 k ad nd ssi where
    rf: "resolve_fields (attr_names (array p)) (map dim_name (dims (array p))) (fields_seq p)
       = Inr (ff, as, ds)"
    and kw: "kw = \<lparr> kw_array = array p, kw_key_dim_index = k, kw_fields = ff, kw_all_dims = ad,
            kw_ned = nd, kw_secondary_slices = ssi, kw_query_attrs = as, kw_query_dims = ds \<rparr>"
    by (rule post_init_Inr)
  from assms(2) have ne: "fields_seq p \<noteq> []" by auto
  with rf have "as = filter (\<lambda>f. f \<in> set (attr_names (array p))) (fields_seq p)"
    and "ds = filter (\<lambda>f. f \<notin> set (attr_names (array p))) (fields_seq p)"
    by (simp_all add: resolve_fields_Inr)
  with kw assms(2,3) show ?thesis by simp
qed

theorem attribute_wins_witness:
  "post_init (params_of overlap_array (KeyIdx 0) [''x'', ''y''] [] None) =
     Inr \<lparr> kw_array = overlap_array, kw_key_dim_index = 0, kw_fields = [''x'', ''y''],
           kw_all_dims = [''x'', ''y''],
           kw_ned = [(IntCoord 0, IntCoord 4), (IntCoord 1, IntCoord 7)],
           kw_secondary_slices = Map.empty,
           kw_query_attrs = [''x''], kw_query_dims = [''y''] \<rparr>
   \<and> ''x'' \<in> set (fields_seq (params_of overlap_array (KeyIdx 0) [''x'', ''y''] [] None))
   \<and> ''x'' \<in> set (attr_names overlap_array)
   \<and> ''x'' \<in> set (map dim_name (dims overlap_array))"
proof -
  let ?p = "params_of overlap_array (KeyIdx 0) [''x'', ''y''] [] None"
  have r: "post_init ?p =
     Inr \<lparr> kw_array = overlap_array, kw_key_dim_index = 0, kw_fields = [''x'', ''y''],
           kw_all_dims = [''x'', ''y''],
           kw_ned = [(IntCoord 0, IntCoord 4), (IntCoord 1, IntCoord 7)],
           kw_secondary_slices = Map.empty,
           kw_query_attrs = [''x''], kw_query_dims = [''y''] \<rparr>"
    by (simp add: post_init_def params_of_def overlap_array_def resolve_fields_def swap_key_def
          swap_first_def Let_def)
  have a: "''x'' \<in> set (fields_seq ?p)" by (simp add: params_of_def)
  have b: "''x'' \<in> set (attr_names (array ?p))" by (simp add: params_of_def overlap_array_def)
  have c: "''x'' \<in> set (map dim_name (dims (array ?p)))"
    by (simp add: params_of_def overlap_array_def)
  from attribute_wins [OF r a b c] r a b c show ?thesis
    by (simp add: params_of_def)
qed

subsection \<open>The loop over the secondary slices\<close>

lemma list_index_inj:
  "list_index xs d = Some i \<Longrightarrow> list_index xs d' = Some i \<Longrightarrow> d = d'"
  using list_index_Some [of xs d i] list_index_Some [of xs d' i] by auto

lemma slices_loop_lookup:
  "slices_loop ad ss acc = Inr m \<Longrightarrow> list_index ad d = Some i \<Longrightarrow> 0 < i \<Longrightarrow>
     m i = (case map_of (rev ss) d of None \<Rightarrow> acc i | Some s \<Rightarrow> Some s)"
proof (induction ss arbitrary: acc)
  case Nil
  then show ?case by simp
next
  case (Cons x ss)
  obtain d' s' where x: "x = (d', s')" by (cases x)
  from Cons.prems(1) x obtain i' where i': "list_index ad d' = Some i'"
    by (auto split: option.splits)
  let ?acc = "if i' > 0 then acc(i' \<mapsto> s') else acc"
  from Cons.prems(1) x i' have "slices_loop ad ss ?acc = Inr m" by simp
  from Cons.IH [OF this Cons.prems(2,3)]
  have IH: "m i = (case map_of (rev ss) d of None \<Rightarrow> ?acc i | Some s \<Rightarrow> Some s)" .
  show ?case
  proof (cases "map_of (rev ss) d")
    case (Some s)
    with IH x show ?thesis by (simp add: map_add_Some_iff)
  next
    case None
    show ?thesis
    proof (cases "d = d'")
      case True
      with i' Cons.prems(2,3) have "i' = i" by simp
      with IH None True x Cons.prems(3) show ?thesis by (simp add: map_add_def)
    next
      case False
      have "i' \<noteq> i"
      proof
        assume "i' = i"
        with i' have "list_index ad d' = Some i" by simp
        from list_index_inj [OF Cons.prems(2) this] False show False by simp
      qed
      with IH None False x show ?thesis by (simp add: map_add_def)
    qed
  qed
qed

lemma slices_loop_other:
  "slices_loop ad ss acc = Inr m \<Longrightarrow>
     i = 0 \<or> (\<forall>d \<in> fst ` set ss. list_index ad d \<noteq> Some i) \<Longrightarrow> m i = acc i"
proof (induction ss arbitrary: acc)
  case Nil
  then show ?case by simp
next
  case (Cons x ss)
  obtain d' s' where x: "x = (d', s')" by (cases x)
  from Cons.prems(1) x obtain i' where i': "list_index ad d' = Some i'"
    by (auto split: option.splits)
  let ?acc = "if i' > 0 then acc(i' \<mapsto> s') else acc"
  from Cons.prems(1) x i' have run: "slices_loop ad ss ?acc = Inr m" by simp
  from Cons.prems(2) have "i = 0 \<or> (\<forall>d \<in> fst ` set ss. list_index ad d \<noteq> Some i)" by auto
  from Cons.IH [OF run this] have "m i = ?acc i" .
  moreover from Cons.prems(2) x i' have "i = 0 \<or> i' \<noteq> i" by auto
  ultimately show ?case by auto
qed

lemma slices_loop_keys:
  assumes "slices_loop ad ss acc = Inr m" and "d \<in> fst ` set ss"
  shows "d \<in> set ad"
proof (rule ccontr)
  assume "d \<notin> set ad"
  with assms(2) have "find (\<lambda>d. d \<notin> set ad) (map fst ss) \<noteq> None"
    by (auto simp: find_None_iff)
  then obtain d' where "find (\<lambda>d. d \<notin> set ad) (map fst ss) = Some d'" by auto
  then have "slices_loop ad ss acc = Inl (ValueError (Not_in_list d'))"
    by (simp add: slices_loop_Inl)
  with assms(1) show False by simp
qed

lemma swap_first_nth0:
  "0 < k \<Longrightarrow> k < length xs \<Longrightarrow> xs[0 := xs ! k, k := xs ! 0] ! 0 = xs ! k"
proof -
  assume k: "0 < k" "k < length xs"
  then have "0 < length xs" by linarith
  with k show ?thesis by (simp add: nth_list_update)
qed

lemma key_at_front:
  assumes "post_init p = Inr kw"
  shows "(key_dim p = KeyName n \<longrightarrow> kw_all_dims kw \<noteq> [] \<and> kw_all_dims kw ! 0 = n)
       \<and> (key_dim p = KeyIdx i \<and> 0 \<le> i \<and> nat i < ndim (array p) \<longrightarrow>
            kw_all_dims kw ! 0 = dim_name (dims (array p) ! nat i))"
proof -
  let ?ad = "map dim_name (dims (array p))"
  from assms obtain ff as ds nd0 k ad nd ssi where
    k: "key_dim_index ?ad (key_dim p) = Inr k"
    and sw: "swap_key ?ad nd0 k = Inr (ad, nd)"
    and kw: "kw = \<lparr> kw_array = array p, kw_key_dim_index = k, kw_fields = ff, kw_all_dims = ad,
            kw_ned = nd, kw_secondary_slices = ssi, kw_query_attrs = as, kw_query_dims = ds \<rparr>"
    by (rule post_init_Inr)
  have front: "ad \<noteq> [] \<and> ad ! 0 = ?ad ! nat k" if "0 \<le> k" and "nat k < length ?ad"
  proof (cases "k > 0")
    case True
    with sw have ad: "ad = ?ad[0 := ?ad ! nat k, nat k := ?ad ! 0]"
      by (simp add: swap_key_Inr)
    from True have pos: "0 < nat k" by simp
    from ad that(2) have "length ad = length ?ad" by simp
    with that(2) have "ad \<noteq> []" by (cases ad) simp_all
    moreover from swap_first_nth0 [OF pos that(2)] ad have "ad ! 0 = ?ad ! nat k" by simp
    ultimately show ?thesis by simp
  next
    case False
    with that(1) have "k = 0" by simp
    moreover from that(2) have "?ad \<noteq> []" by (cases "dims (array p)") simp_all
    moreover from False sw have "ad = ?ad" by (simp add: swap_key_Inr)
    ultimately show ?thesis by simp
  qed
  have name: "kw_all_dims kw \<noteq> [] \<and> kw_all_dims kw ! 0 = n" if n: "key_dim p = KeyName n"
  proof -
    from k n obtain j where j: "list_index ?ad n = Some j" "k = int j"
      by (auto split: option.splits)
    from list_index_Some [OF j(1)] have "j < length ?ad" "?ad ! j = n" by auto
    with front j(2) kw show ?thesis by simp
  qed
  have idx: "kw_all_dims kw ! 0 = dim_name (dims (array p) ! nat i)"
    if i: "key_dim p = KeyIdx i \<and> 0 \<le> i \<and> nat i < ndim (array p)"
  proof -
    from k i have "k = i" by simp
    with front i kw show ?thesis by (simp add: ndim_def)
  qed
  from name idx show ?thesis by blast
qed

subsection \<open>Secondary slices and the key dimension\<close>

text \<open>
  Claim C4. After a successful resolution no secondary slice is stored for position 0, the
  position of the key dimension: a slice given for the dimension at position 0 of the
  resolved ordering is dropped, and no stored slice belongs to a dimension of that name.
  A slice given for any other dimension is kept, stored under the position that the
  dimension has in the resolved ordering, and nothing else is stored. The dimension at
  position 0 is the one the key selector names. (\<open>map_of (rev ss)\<close> is the dictionary
  whose items are \<open>ss\<close>.)
\<close>

theorem secondary_slices_resolved:
  assumes "post_init p = Inr kw"
  shows "kw_secondary_slices kw 0 = None
       \<and> (\<forall>d s. map_of (rev (secondary_slices p)) d = Some s \<and> d \<noteq> kw_all_dims kw ! 0 \<longrightarrow>
            (\<exists>i. list_index (kw_all_dims kw) d = Some i \<and> 0 < i
                \<and> kw_secondary_slices kw i = Some s))
       \<and> (\<forall>i s. kw_secondary_slices kw i = Some s \<longrightarrow>
            0 < i \<and> i < length (kw_all_dims kw)
            \<and> kw_all_dims kw ! i \<noteq> kw_all_dims kw ! 0
            \<and> map_of (rev (secondary_slices p)) (kw_all_dims kw ! i) = Some s)
       \<and> (\<forall>n. key_dim p = KeyName n \<longrightarrow> kw_all_dims kw ! 0 = n)
       \<and> (\<forall>i. key_dim p = KeyIdx i \<and> 0 \<le> i \<and> nat i < ndim (array p) \<longrightarrow>
            kw_all_dims kw ! 0 = dim_name (dims (array p) ! nat i))"
proof -
  from assms obtain ff as ds nd0 k ad nd ssi where
    sl: "slices_loop ad (secondary_slices p) Map.empty = Inr ssi"
    and kw: "kw = \<lparr> kw_array = array p, kw_key_dim_index = k, kw_fields = ff, kw_all_dims = ad,
            kw_ned = nd, kw_secondary_slices = ssi, kw_query_attrs = as, kw_query_dims = ds \<rparr>"
    by (rule post_init_Inr)
  have ad: "kw_all_dims kw = ad" and ssi: "kw_secondary_slices kw = ssi"
    using kw by simp_all
  have zero: "ssi 0 = None"
    using slices_loop_other [OF sl, of 0] by simp
  have kept: "\<exists>i. list_index ad d = Some i \<and> 0 < i \<and> ssi i = Some s"
    if "map_of (rev (secondary_slices p)) d = Some s" and "d \<noteq> ad ! 0" for d s
  proof -
    from that(1) have "(d, s) \<in> set (rev (secondary_slices p))" by (rule map_of_SomeD)
    then have "d \<in> fst ` set (secondary_slices p)" by force
    from slices_loop_keys [OF sl this] obtain i where i: "list_index ad d = Some i"
      using list_index_None [of ad d] by auto
    with that(2) have "0 < i" using list_index_zero [of ad d] by (cases i) auto
    with slices_loop_lookup [OF sl i] that(1) i show ?thesis by simp
  qed
  have rev_kept: "0 < i \<and> i < length ad \<and> ad ! i \<noteq> ad ! 0
        \<and> map_of (rev (secondary_slices p)) (ad ! i) = Some s"
    if "ssi i = Some s" for i s
  proof -
    from that zero have pos: "0 < i" by (cases i) auto
    have "\<exists>d \<in> fst ` set (secondary_slices p). list_index ad d = Some i"
    proof (rule ccontr)
      assume "\<not> ?thesis"
      with slices_loop_other [OF sl, of i] have "ssi i = None" by simp
      with that show False by simp
    qed
    then obtain d where d: "list_index ad d = Some i" by auto
    from list_index_Some [OF d] pos have "i < length ad" "ad ! i = d" "ad ! 0 \<noteq> d"
      by auto
    moreover from slices_loop_lookup [OF sl d pos] that
    have "map_of (rev (secondary_slices p)) d = Some s"
      by (auto split: option.splits)
    ultimately show ?thesis using pos by simp
  qed
  from key_at_front [OF assms]
  have kn: "\<forall>n. key_dim p = KeyName n \<longrightarrow> ad ! 0 = n" unfolding ad by simp
  from key_at_front [OF assms]
  have ki: "\<forall>i. key_dim p = KeyIdx i \<and> 0 \<le> i \<and> nat i < ndim (array p) \<longrightarrow>
            ad ! 0 = dim_name (dims (array p) ! nat i)" unfolding ad by simp
  show ?thesis unfolding ad ssi
  proof (intro conjI)
    show "ssi 0 = None" by (rule zero)
    show "\<forall>d s. map_of (rev (secondary_slices p)) d = Some s \<and> d \<noteq> ad ! 0 \<longrightarrow>
            (\<exists>i. list_index ad d = Some i \<and> 0 < i \<and> ssi i = Some s)"
      using kept by simp
    show "\<forall>i s. ssi i = Some s \<longrightarrow>
            0 < i \<and> i < length ad \<and> ad ! i \<noteq> ad ! 0
            \<and> map_of (rev (secondary_slices p)) (ad ! i) = Some s"
      using rev_kept by simp
    show "\<forall>n. key_dim p = KeyName n \<longrightarrow> ad ! 0 = n" by (rule kn)
    show "\<forall>i. key_dim p = KeyIdx i \<and> 0 \<le> i \<and> nat i < ndim (array p) \<longrightarrow>
            ad ! 0 = dim_name (dims (array p) ! nat i)" by (rule ki)
  qed
qed

theorem secondary_slices_resolved_witness:
  "post_init (params_of image_array (KeyName ''d1'') []
       [(''d1'', SliceIndex 1), (''d0'', SliceRange (Some 0) (Some 2) None)] None) =
     Inr \<lparr> kw_array = image_array, kw_key_dim_index = 1, kw_fields = [''a1'', ''a2''],
           kw_all_dims = [''d1'', ''d0'', ''d2''],
           kw_ned = [(IntCoord 0, IntCoord 3), (IntCoord 0, IntCoord 9), (IntCoord 0, IntCoord 5)],
           kw_secondary_slices = [1 \<mapsto> SliceRange (Some 0) (Some 2) None],
           kw_query_attrs = [''a1'', ''a2''], kw_query_dims = [] \<rparr>
   \<and> [1 \<mapsto> SliceRange (Some 0) (Some 2) None] (0::nat) = None
   \<and> [1 \<mapsto> SliceRange (Some 0) (Some 2) None] (1::nat) = Some (SliceRange (Some 0) (Some 2) None)
   \<and> [''d1'', ''d0'', ''d2''] ! 0 = ''d1''"
proof -
  let ?p = "params_of image_array (KeyName ''d1'') []
       [(''d1'', SliceIndex 1), (''d0'', SliceRange (Some 0) (Some 2) None)] None"
  have r: "post_init ?p =
     Inr \<lparr> kw_array = image_array, kw_key_dim_index = 1, kw_fields = [''a1'', ''a2''],
           kw_all_dims = [''d1'', ''d0'', ''d2''],
           kw_ned = [(IntCoord 0, IntCoord 3), (IntCoord 0, IntCoord 9), (IntCoord 0, IntCoord 5)],
           kw_secondary_slices = [1 \<mapsto> SliceRange (Some 0) (Some 2) None],
           kw_query_attrs = [''a1'', ''a2''], kw_query_dims = [] \<rparr>"
    by (simp add: post_init_def params_of_def image_array_def resolve_fields_def swap_key_def
          swap_first_def Let_def)
  from secondary_slices_resolved [OF r] r show ?thesis by simp
qed

subsection \<open>Facts about the choice of the tensor kind\<close>

lemma dim_by_name_None: "dim_by_name ds n = None \<longleftrightarrow> n \<notin> dim_name ` set ds"
  by (induction ds) auto

lemma dim_by_name_Some: "dim_by_name ds n = Some d \<Longrightarrow> d \<in> set ds \<and> dim_name d = n"
  by (induction ds) (auto split: if_splits)

lemma dim_by_name_distinct:
  "distinct (map dim_name ds) \<Longrightarrow> d \<in> set ds \<Longrightarrow> dim_by_name ds (dim_name d) = Some d"
  by (induction ds) auto

lemma all_integer_eq:
  "set ns \<subseteq> dim_name ` set ds \<Longrightarrow>
     all_integer ds ns = Inr (\<not> list_ex (non_integer_dim ds) ns)"
proof (induction ns)
  case Nil
  then show ?case by simp
next
  case (Cons n ns)
  from Cons.prems have "n \<in> dim_name ` set ds" by simp
  then obtain d where d: "dim_by_name ds n = Some d"
    using dim_by_name_None [of ds n] by (cases "dim_by_name ds n") auto
  from Cons.prems have "set ns \<subseteq> dim_name ` set ds" by simp
  from Cons.IH [OF this] d show ?case
    by (simp add: non_integer_dim_def)
qed

lemma truthy_get_transform:
  "truthy (get_transform transforms k) \<longleftrightarrow>
     transforms k \<noteq> Some (TBool False) \<and> \<not> falsy_callable_at transforms k"
proof (cases "transforms k")
  case None
  then show ?thesis by (simp add: get_transform_def falsy_callable_at_def)
next
  case (Some t)
  then show ?thesis by (cases t) (auto simp: get_transform_def falsy_callable_at_def)
qed

lemma post_init_all_dims:
  assumes "post_init p = Inr kw"
  shows "set (kw_all_dims kw) = dim_name ` set (dims (array p))"
    and "length (kw_all_dims kw) = ndim (array p)"
proof -
  from assms obtain ff as ds nd0 k ad nd ssi where
    sw: "swap_key (map dim_name (dims (array p))) nd0 k = Inr (ad, nd)"
    and kw: "kw = \<lparr> kw_array = array p, kw_key_dim_index = k, kw_fields = ff, kw_all_dims = ad,
            kw_ned = nd, kw_secondary_slices = ssi, kw_query_attrs = as, kw_query_dims = ds \<rparr>"
    by (rule post_init_Inr)
  from swap_key_set [OF sw] kw
  show "set (kw_all_dims kw) = dim_name ` set (dims (array p))"
    and "length (kw_all_dims kw) = ndim (array p)"
    by (simp_all add: ndim_def)
qed

lemma choose_kind_resolved:
  assumes "post_init p = Inr kw"
  shows "choose_kind p kw transforms =
     Inr (case tensor_kind p of
            Some k \<Rightarrow> k
          | None \<Rightarrow>
             if \<not> sparse (array p) then DENSE
             else if list_ex (non_integer_dim (dims (array p))) (drop 1 (kw_all_dims kw))
               then RAGGED
             else if ndim (array p) \<noteq> 2 \<or> transforms SPARSE_CSR = Some (TBool False)
                     \<or> falsy_callable_at transforms SPARSE_CSR
               then SPARSE_COO
             else SPARSE_CSR)"
proof -
  have "set (drop 1 (kw_all_dims kw)) \<subseteq> set (kw_all_dims kw)" by (rule set_drop_subset)
  with post_init_all_dims(1) [OF assms]
  have "set (drop 1 (kw_all_dims kw)) \<subseteq> dim_name ` set (dims (array p))" by simp
  from all_integer_eq [OF this] show ?thesis
    by (auto simp: choose_kind_def truthy_get_transform split: option.splits)
qed

lemma choose_kind_specified:
  assumes "post_init p = Inr kw" and "\<not> falsy_callable_at transforms SPARSE_CSR"
  shows "choose_kind p kw transforms = Inr (specified_kind p kw transforms)"
  using assms(2) unfolding choose_kind_resolved [OF assms(1)]
  by (simp add: specified_kind_def split: option.splits)

lemma post_init_distinct:
  assumes "post_init p = Inr kw" and "distinct (map dim_name (dims (array p)))"
  shows "distinct (kw_all_dims kw)"
proof -
  let ?ad = "map dim_name (dims (array p))"
  from assms(1) obtain ff as ds nd0 k ad nd ssi where
    sw: "swap_key ?ad nd0 k = Inr (ad, nd)"
    and kw: "kw = \<lparr> kw_array = array p, kw_key_dim_index = k, kw_fields = ff, kw_all_dims = ad,
            kw_ned = nd, kw_secondary_slices = ssi, kw_query_attrs = as, kw_query_dims = ds \<rparr>"
    by (rule post_init_Inr)
  have "distinct ad"
  proof (cases "k > 0")
    case True
    with sw have lt: "nat k < length ?ad" and ad: "ad = ?ad[0 := ?ad ! nat k, nat k := ?ad ! 0]"
      by (simp_all add: swap_key_Inr)
    from lt have "0 < length ?ad" by linarith
    from distinct_swap [OF this lt] assms(2) show ?thesis unfolding ad by simp
  next
    case False
    with sw assms(2) show ?thesis by (simp add: swap_key_Inr)
  qed
  with kw show ?thesis by simp
qed

lemma non_key_dims_distinct:
  assumes "post_init p = Inr kw" and "distinct (map dim_name (dims (array p)))"
  shows "(\<exists>n \<in> set (drop 1 (kw_all_dims kw)). non_integer_dim (dims (array p)) n) \<longleftrightarrow>
         (\<exists>d \<in> set (dims (array p)).
            dim_name d \<noteq> hd (kw_all_dims kw) \<and> \<not> issubdtype_integer (dim_dtype d))"
proof
  assume "\<exists>n \<in> set (drop 1 (kw_all_dims kw)). non_integer_dim (dims (array p)) n"
  then obtain n where n: "n \<in> set (drop 1 (kw_all_dims kw))"
    and ni: "non_integer_dim (dims (array p)) n" by auto
  from ni obtain d where d: "dim_by_name (dims (array p)) n = Some d"
    and nd: "\<not> issubdtype_integer (dim_dtype d)"
    by (auto simp: non_integer_dim_def split: option.splits)
  from dim_by_name_Some [OF d] have "d \<in> set (dims (array p))" "dim_name d = n" by auto
  moreover from n post_init_distinct [OF assms] have "n \<noteq> hd (kw_all_dims kw)"
    by (cases "kw_all_dims kw") auto
  ultimately show "\<exists>d \<in> set (dims (array p)).
            dim_name d \<noteq> hd (kw_all_dims kw) \<and> \<not> issubdtype_integer (dim_dtype d)"
    using nd by auto
next
  assume "\<exists>d \<in> set (dims (array p)).
            dim_name d \<noteq> hd (kw_all_dims kw) \<and> \<not> issubdtype_integer (dim_dtype d)"
  then obtain d where d: "d \<in> set (dims (array p))"
    and nk: "dim_name d \<noteq> hd (kw_all_dims kw)"
    and nd: "\<not> issubdtype_integer (dim_dtype d)" by auto
  from d post_init_all_dims(1) [OF assms(1)] have "dim_name d \<in> set (kw_all_dims kw)" by auto
  with nk have "dim_name d \<in> set (drop 1 (kw_all_dims kw))"
    by (cases "kw_all_dims kw") auto
  moreover from dim_by_name_distinct [OF assms(2) d] nd
  have "non_integer_dim (dims (array p)) (dim_name d)" by (simp add: non_integer_dim_def)
  ultimately show "\<exists>n \<in> set (drop 1 (kw_all_dims kw)). non_integer_dim (dims (array p)) n"
    by auto
qed

lemma choose_kind_total:
  assumes "post_init p = Inr kw"
  obtains k where "choose_kind p kw transforms = Inr k"
  using choose_kind_resolved [OF assms] by blast

lemma to_tensor_schema_slicing:
  assumes "choose_kind p kw transforms = Inr k"
  shows "to_tensor_schema p kw transforms = Inl (NotImplementedError slicing_msg) \<longleftrightarrow>
           k \<noteq> DENSE \<and> secondary_slices p \<noteq> []"
proof -
  have "build_schema p kw transforms k = Inl (NotImplementedError slicing_msg) \<longleftrightarrow>
           k \<noteq> DENSE \<and> secondary_slices p \<noteq> []"
    by (cases "get_transform transforms k")
       (auto simp: build_schema_def Let_def mapping_msg_neq)
  with assms show ?thesis by (simp add: to_tensor_schema_def)
qed

subsection \<open>Resolutions of the example inputs\<close>

lemma post_init_sparse_matrix:
  "post_init (params_of sparse_matrix (KeyIdx 0) [] [(''c'', SliceIndex 0)] tk)
     = Inr (sparse_matrix_kwargs [1 \<mapsto> SliceIndex 0])"
  by (simp add: post_init_def params_of_def sparse_matrix_def sparse_matrix_kwargs_def
        resolve_fields_def swap_key_def Let_def)

lemma post_init_sparse_matrix_key:
  "post_init (params_of sparse_matrix (KeyIdx 0) [] [(''r'', SliceIndex 3)] tk)
     = Inr (sparse_matrix_kwargs Map.empty)"
  by (simp add: post_init_def params_of_def sparse_matrix_def sparse_matrix_kwargs_def
        resolve_fields_def swap_key_def Let_def)

lemma post_init_sparse_matrix_plain:
  "post_init (params_of sparse_matrix (KeyIdx 0) [] [] tk) = Inr (sparse_matrix_kwargs Map.empty)"
  by (simp add: post_init_def params_of_def sparse_matrix_def sparse_matrix_kwargs_def
        resolve_fields_def swap_key_def Let_def)

lemma post_init_image_sliced:
  "post_init (params_of image_array (KeyIdx 0) [] [(''d1'', SliceIndex 0)] tk)
     = Inr (image_kwargs [1 \<mapsto> SliceIndex 0])"
  by (simp add: post_init_def params_of_def image_array_def image_kwargs_def
        resolve_fields_def swap_key_def Let_def)

lemma choose_kind_sparse_matrix:
  "choose_kind (params_of sparse_matrix (KeyIdx 0) [] ss None) (sparse_matrix_kwargs ssi)
     (Map.empty :: tensor_kind \<rightharpoonup> nat transform) = Inr SPARSE_CSR"
  by (simp add: choose_kind_def params_of_def sparse_matrix_def sparse_matrix_kwargs_def
        ndim_def get_transform_def)

subsection \<open>Inference of the tensor kind\<close>

text \<open>
  On a resolved instance a kind is always chosen. It is the pinned kind when there is
  one; otherwise DENSE when the array is not flagged sparse; else RAGGED when some
  dimension after position 0 of the resolved ordering has a dtype that is not an integer
  type; else SPARSE_COO when the array does not have exactly two dimensions or the entry
  of SPARSE_CSR in the transform table is false in Python's sense; else SPARSE_CSR. When
  the dimension names are distinct, the dimensions after position 0 are exactly the
  dimensions other than the key dimension. Unless SPARSE_CSR is mapped to a callable that
  is false in Python's sense, this is the kind that the specification gives.
\<close>

lemma tensor_kind_cascade:
  assumes "post_init p = Inr kw"
  shows "choose_kind p kw transforms =
      Inr (case tensor_kind p of
             Some k \<Rightarrow> k
           | None \<Rightarrow>
              if \<not> sparse (array p) then DENSE
              else if (\<exists>n \<in> set (drop 1 (kw_all_dims kw)). non_integer_dim (dims (array p)) n)
                then RAGGED
              else if ndim (array p) \<noteq> 2 \<or> transforms SPARSE_CSR = Some (TBool False)
                      \<or> falsy_callable_at transforms SPARSE_CSR
                then SPARSE_COO
              else SPARSE_CSR)
    \<and> (distinct (map dim_name (dims (array p))) \<longrightarrow>
         ((\<exists>n \<in> set (drop 1 (kw_all_dims kw)). non_integer_dim (dims (array p)) n) \<longleftrightarrow>
          (\<exists>d \<in> set (dims (array p)).
             dim_name d \<noteq> hd (kw_all_dims kw) \<and> \<not> issubdtype_integer (dim_dtype d))))
    \<and> (\<not> falsy_callable_at transforms SPARSE_CSR \<longrightarrow>
         choose_kind p kw transforms = Inr (specified_kind p kw transforms))"
proof (intro conjI impI)
  show "choose_kind p kw transforms =
      Inr (case tensor_kind p of
             Some k \<Rightarrow> k
           | None \<Rightarrow>
              if \<not> sparse (array p) then DENSE
              else if (\<exists>n \<in> set (drop 1 (kw_all_dims kw)). non_integer_dim (dims (array p)) n)
                then RAGGED
              else if ndim (array p) \<noteq> 2 \<or> transforms SPARSE_CSR = Some (TBool False)
                      \<or> falsy_callable_at transforms SPARSE_CSR
                then SPARSE_COO
              else SPARSE_CSR)"
    unfolding choose_kind_resolved [OF assms]
    by (auto simp: list_ex_iff split: option.splits)
next
  assume "distinct (map dim_name (dims (array p)))"
  with assms show "(\<exists>n \<in> set (drop 1 (kw_all_dims kw)). non_integer_dim (dims (array p)) n) \<longleftrightarrow>
          (\<exists>d \<in> set (dims (array p)).
             dim_name d \<noteq> hd (kw_all_dims kw) \<and> \<not> issubdtype_integer (dim_dtype d))"
    by (rule non_key_dims_distinct)
next
  assume "\<not> falsy_callable_at transforms SPARSE_CSR"
  with assms show "choose_kind p kw transforms = Inr (specified_kind p kw transforms)"
    by (rule choose_kind_specified)
qed

text \<open>
  Claim C2. The claim has SPARSE_CSR disabled only by an entry False of the transform
  table, and the docstring of \<^verbatim>\<open>to_tensor_schema\<close> has a callable entry applied to the
  tensors. Line 111 tests the truth value of the entry instead: on a sparse matrix with
  integer dimensions and no pinned kind, a table that maps SPARSE_CSR to a callable that
  is false in Python's sense makes the code choose SPARSE_COO, where the claim gives
  SPARSE_CSR.
\<close>

theorem falsy_callable_disables_csr:
  "post_init (params_of sparse_matrix (KeyIdx 0) [] [] None) = Inr (sparse_matrix_kwargs Map.empty)
   \<and> choose_kind (params_of sparse_matrix (KeyIdx 0) [] [] None) (sparse_matrix_kwargs Map.empty)
       [SPARSE_CSR \<mapsto> TCallable False (0::nat)] = Inr SPARSE_COO
   \<and> specified_kind (params_of sparse_matrix (KeyIdx 0) [] [] None)
       (sparse_matrix_kwargs Map.empty) [SPARSE_CSR \<mapsto> TCallable False (0::nat)] = SPARSE_CSR
   \<and> choose_kind (params_of sparse_matrix (KeyIdx 0) [] [] None) (sparse_matrix_kwargs Map.empty)
       [SPARSE_CSR \<mapsto> TCallable True (0::nat)] = Inr SPARSE_CSR
   \<and> choose_kind (params_of sparse_matrix (KeyIdx 0) [] [] None) (sparse_matrix_kwargs Map.empty)
       [SPARSE_CSR \<mapsto> (TBool False :: nat transform)] = Inr SPARSE_COO"
  using post_init_sparse_matrix_plain [of None]
  by (simp add: choose_kind_def specified_kind_def params_of_def sparse_matrix_def
        sparse_matrix_kwargs_def ndim_def get_transform_def non_integer_dim_def)

theorem falsy_callable_disables_csr_witness:
  "choose_kind (params_of sparse_matrix (KeyIdx 0) [] [] None) (sparse_matrix_kwargs Map.empty)
       [SPARSE_CSR \<mapsto> TCallable False (0::nat)]
     \<noteq> Inr (specified_kind (params_of sparse_matrix (KeyIdx 0) [] [] None)
           (sparse_matrix_kwargs Map.empty) [SPARSE_CSR \<mapsto> TCallable False (0::nat)])"
  using falsy_callable_disables_csr by simp

subsection \<open>Secondary slices need a dense tensor\<close>

text \<open>
  Claim C5. On a resolved instance whose \<^verbatim>\<open>secondary_slices\<close> mapping is not empty, a kind
  is chosen, and \<^verbatim>\<open>to_tensor_schema\<close> raises the \<^verbatim>\<open>NotImplementedError\<close> about slicing on
  secondary indices when that kind is not DENSE, and does not raise that error when the
  kind is DENSE.
\<close>

theorem secondary_slices_need_dense:
  assumes "post_init p = Inr kw" and "secondary_slices p \<noteq> []"
  shows "\<exists>k. choose_kind p kw transforms = Inr k
           \<and> (k \<noteq> DENSE \<longrightarrow>
                to_tensor_schema p kw transforms = Inl (NotImplementedError slicing_msg))
           \<and> (k = DENSE \<longrightarrow>
                to_tensor_schema p kw transforms \<noteq> Inl (NotImplementedError slicing_msg))"
proof -
  from assms(1) obtain k where k: "choose_kind p kw transforms = Inr k"
    by (rule choose_kind_total)
  from to_tensor_schema_slicing [OF k] assms(2) k show ?thesis by auto
qed

theorem secondary_slices_need_dense_witness:
  "post_init (params_of sparse_matrix (KeyIdx 0) [] [(''c'', SliceIndex 0)] None)
      = Inr (sparse_matrix_kwargs [1 \<mapsto> SliceIndex 0])
   \<and> secondary_slices (params_of sparse_matrix (KeyIdx 0) [] [(''c'', SliceIndex 0)] None) \<noteq> []
   \<and> choose_kind (params_of sparse_matrix (KeyIdx 0) [] [(''c'', SliceIndex 0)] None)
        (sparse_matrix_kwargs [1 \<mapsto> SliceIndex 0])
        (Map.empty :: tensor_kind \<rightharpoonup> nat transform) = Inr SPARSE_CSR
   \<and> to_tensor_schema (params_of sparse_matrix (KeyIdx 0) [] [(''c'', SliceIndex 0)] None)
        (sparse_matrix_kwargs [1 \<mapsto> SliceIndex 0])
        (Map.empty :: tensor_kind \<rightharpoonup> nat transform) = Inl (NotImplementedError slicing_msg)
   \<and> post_init (params_of image_array (KeyIdx 0) [] [(''d1'', SliceIndex 0)] None)
      = Inr (image_kwargs [1 \<mapsto> SliceIndex 0])
   \<and> choose_kind (params_of image_array (KeyIdx 0) [] [(''d1'', SliceIndex 0)] None)
        (image_kwargs [1 \<mapsto> SliceIndex 0])
        (Map.empty :: tensor_kind \<rightharpoonup> nat transform) = Inr DENSE
   \<and> to_tensor_schema (params_of image_array (KeyIdx 0) [] [(''d1'', SliceIndex 0)] None)
        (image_kwargs [1 \<mapsto> SliceIndex 0])
        (Map.empty :: tensor_kind \<rightharpoonup> nat transform)
      = Inr (TensorSchema DENSE (image_kwargs [1 \<mapsto> SliceIndex 0]))"
proof -
  let ?p = "params_of sparse_matrix (KeyIdx 0) [] [(''c'', SliceIndex 0)] None"
  let ?kw = "sparse_matrix_kwargs [1 \<mapsto> SliceIndex 0]"
  let ?q = "params_of image_array (KeyIdx 0) [] [(''d1'', SliceIndex 0)] None"
  let ?kq = "image_kwargs [1 \<mapsto> SliceIndex 0]"
  let ?T = "Map.empty :: tensor_kind \<rightharpoonup> nat transform"
  have r: "post_init ?p = Inr ?kw" by (rule post_init_sparse_matrix)
  have ne: "secondary_slices ?p \<noteq> []" by (simp add: params_of_def)
  have k: "choose_kind ?p ?kw ?T = Inr SPARSE_CSR" by (rule choose_kind_sparse_matrix)
  have s: "to_tensor_schema ?p ?kw ?T = Inl (NotImplementedError slicing_msg)"
    using secondary_slices_need_dense [OF r ne, of ?T] k by simp
  have rq: "post_init ?q = Inr ?kq" by (rule post_init_image_sliced)
  have kq: "choose_kind ?q ?kq ?T = Inr DENSE"
    by (simp add: choose_kind_def params_of_def image_array_def)
  have tq: "to_tensor_schema ?q ?kq ?T = Inr (TensorSchema DENSE ?kq)"
    unfolding to_tensor_schema_def kq by (simp add: build_schema_def get_transform_def)
  from r ne k s rq kq tq show ?thesis by simp
qed

subsection \<open>The entry of the transform table\<close>

lemma build_schema_no_slicing:
  assumes "k = DENSE \<or> secondary_slices p = []"
  shows "build_schema p kw transforms k =
     (case transforms k of
        None \<Rightarrow> Inr (TensorSchema k kw)
      | Some (TBool b) \<Rightarrow>
          if b then Inr (TensorSchema k kw) else Inl (NotImplementedError (mapping_msg k))
      | Some (TCallable t f) \<Rightarrow>
          if t then Inr (MappedTensorSchema (TensorSchema k kw) f)
          else Inl (NotImplementedError (mapping_msg k)))"
  using assms
  by (auto simp: build_schema_def get_transform_def Let_def split: option.splits transform.splits)

lemma build_schema_disabled:
  assumes "transforms k = Some (TBool False)"
  shows "build_schema p kw transforms k = Inl (NotImplementedError slicing_msg)
       \<or> build_schema p kw transforms k = Inl (NotImplementedError (mapping_msg k))"
  using assms by (simp add: build_schema_def get_transform_def Let_def)

text \<open>
  Claim C6 as stated fails: on a sparse matrix with a secondary slice and an empty
  transform table the chosen kind SPARSE_CSR has no entry, yet no schema is returned,
  since the check of the secondary slices raises first.
\<close>

theorem transform_entry_counterexample:
  "post_init (params_of sparse_matrix (KeyIdx 0) [] [(''c'', SliceIndex 0)] None)
      = Inr (sparse_matrix_kwargs [1 \<mapsto> SliceIndex 0])
   \<and> choose_kind (params_of sparse_matrix (KeyIdx 0) [] [(''c'', SliceIndex 0)] None)
        (sparse_matrix_kwargs [1 \<mapsto> SliceIndex 0])
        (Map.empty :: tensor_kind \<rightharpoonup> nat transform) = Inr SPARSE_CSR
   \<and> to_tensor_schema (params_of sparse_matrix (KeyIdx 0) [] [(''c'', SliceIndex 0)] None)
        (sparse_matrix_kwargs [1 \<mapsto> SliceIndex 0])
        (Map.empty :: tensor_kind \<rightharpoonup> nat transform) = Inl (NotImplementedError slicing_msg)
   \<and> \<not> transform_entry_applied
        (params_of sparse_matrix (KeyIdx 0) [] [(''c'', SliceIndex 0)] None)
        (sparse_matrix_kwargs [1 \<mapsto> SliceIndex 0])
        (Map.empty :: tensor_kind \<rightharpoonup> nat transform)"
proof -
  let ?p = "params_of sparse_matrix (KeyIdx 0) [] [(''c'', SliceIndex 0)] None"
  let ?kw = "sparse_matrix_kwargs [1 \<mapsto> SliceIndex 0]"
  let ?T = "Map.empty :: tensor_kind \<rightharpoonup> nat transform"
  have r: "post_init ?p = Inr ?kw" by (rule post_init_sparse_matrix)
  have k: "choose_kind ?p ?kw ?T = Inr SPARSE_CSR" by (rule choose_kind_sparse_matrix)
  have t: "to_tensor_schema ?p ?kw ?T = Inl (NotImplementedError slicing_msg)"
    unfolding to_tensor_schema_def k by (simp add: build_schema_def params_of_def)
  from r k t show ?thesis by (simp add: transform_entry_applied_def)
qed

text \<open>
  Claim C6, amended. On a resolved instance a kind is chosen. When the transform table maps
  it to False, \<^verbatim>\<open>to_tensor_schema\<close> raises a \<^verbatim>\<open>NotImplementedError\<close>. When the check of the
  secondary slices does not fire (the kind is DENSE, or \<^verbatim>\<open>secondary_slices\<close> is empty), an
  entry False raises the error that mapping to the kind is not implemented, an entry True
  or no entry returns the schema the factory builds for the kind, unwrapped, and an entry
  that is a callable true in Python's sense returns that schema wrapped in
  \<^verbatim>\<open>MappedTensorSchema\<close> with the callable. Nothing is said of a callable that is false in
  Python's sense: line 122 tests the truth value of the entry, against the docstring.
\<close>

theorem transform_entry:
  assumes "post_init p = Inr kw"
  shows "\<exists>k. choose_kind p kw transforms = Inr k
     \<and> (transforms k = Some (TBool False) \<longrightarrow>
          (\<exists>m. to_tensor_schema p kw transforms = Inl (NotImplementedError m)))
     \<and> (k = DENSE \<or> secondary_slices p = [] \<longrightarrow>
          (transforms k = Some (TBool False) \<longrightarrow>
             to_tensor_schema p kw transforms = Inl (NotImplementedError (mapping_msg k)))
        \<and> (transforms k = Some (TBool True) \<or> transforms k = None \<longrightarrow>
             to_tensor_schema p kw transforms = Inr (TensorSchema k kw))
        \<and> (\<forall>f. transforms k = Some (TCallable True f) \<longrightarrow>
             to_tensor_schema p kw transforms
               = Inr (MappedTensorSchema (TensorSchema k kw) f)))"
proof -
  from assms obtain k where k: "choose_kind p kw transforms = Inr k"
    by (rule choose_kind_total)
  then have t: "to_tensor_schema p kw transforms = build_schema p kw transforms k"
    by (simp add: to_tensor_schema_def)
  have a: "\<exists>m. to_tensor_schema p kw transforms = Inl (NotImplementedError m)"
    if "transforms k = Some (TBool False)"
    using build_schema_disabled [of transforms k p kw] that t by auto
  have b: "(transforms k = Some (TBool False) \<longrightarrow>
             to_tensor_schema p kw transforms = Inl (NotImplementedError (mapping_msg k)))
        \<and> (transforms k = Some (TBool True) \<or> transforms k = None \<longrightarrow>
             to_tensor_schema p kw transforms = Inr (TensorSchema k kw))
        \<and> (\<forall>f. transforms k = Some (TCallable True f) \<longrightarrow>
             to_tensor_schema p kw transforms
               = Inr (MappedTensorSchema (TensorSchema k kw) f))"
    if "k = DENSE \<or> secondary_slices p = []"
    unfolding t build_schema_no_slicing [OF that] by auto
  show ?thesis
  proof (rule exI [of _ k], intro conjI)
    show "choose_kind p kw transforms = Inr k" by (rule k)
    show "transforms k = Some (TBool False) \<longrightarrow>
          (\<exists>m. to_tensor_schema p kw transforms = Inl (NotImplementedError m))"
      using a by (rule impI)
    show "k = DENSE \<or> secondary_slices p = [] \<longrightarrow>
          (transforms k = Some (TBool False) \<longrightarrow>
             to_tensor_schema p kw transforms = Inl (NotImplementedError (mapping_msg k)))
        \<and> (transforms k = Some (TBool True) \<or> transforms k = None \<longrightarrow>
             to_tensor_schema p kw transforms = Inr (TensorSchema k kw))
        \<and> (\<forall>f. transforms k = Some (TCallable True f) \<longrightarrow>
             to_tensor_schema p kw transforms
               = Inr (MappedTensorSchema (TensorSchema k kw) f))"
      using b by (rule impI)
  qed
qed

theorem transform_entry_witness:
  "post_init (params_of image_array (KeyIdx 0) [] [(''d1'', SliceIndex 0)] None)
      = Inr (image_kwargs [1 \<mapsto> SliceIndex 0])
   \<and> choose_kind (params_of image_array (KeyIdx 0) [] [(''d1'', SliceIndex 0)] None)
        (image_kwargs [1 \<mapsto> SliceIndex 0]) [DENSE \<mapsto> TCallable True (7::nat)] = Inr DENSE
   \<and> to_tensor_schema (params_of image_array (KeyIdx 0) [] [(''d1'', SliceIndex 0)] None)
        (image_kwargs [1 \<mapsto> SliceIndex 0]) [DENSE \<mapsto> TCallable True (7::nat)]
       = Inr (MappedTensorSchema (TensorSchema DENSE (image_kwargs [1 \<mapsto> SliceIndex 0])) 7)
   \<and> to_tensor_schema (params_of image_array (KeyIdx 0) [] [(''d1'', SliceIndex 0)] None)
        (image_kwargs [1 \<mapsto> SliceIndex 0]) [DENSE \<mapsto> (TBool False :: nat transform)]
       = Inl (NotImplementedError (mapping_msg DENSE))"
proof -
  let ?p = "params_of image_array (KeyIdx 0) [] [(''d1'', SliceIndex 0)] None"
  let ?kw = "image_kwargs [1 \<mapsto> SliceIndex 0]"
  have r: "post_init ?p = Inr ?kw" by (rule post_init_image_sliced)
  have k: "choose_kind ?p ?kw T = Inr DENSE" for T :: "tensor_kind \<rightharpoonup> nat transform"
    by (simp add: choose_kind_def params_of_def image_array_def)
  from transform_entry [OF r, of "[DENSE \<mapsto> TCallable True (7::nat)]"]
    transform_entry [OF r, of "[DENSE \<mapsto> (TBool False :: nat transform)]"] r k
  show ?thesis by simp
qed

text \<open>
  What the amended claim leaves out: a callable entry that is false in Python's sense is
  not applied; line 122 raises the error of a disabled kind.
\<close>

lemma falsy_callable_not_implemented:
  "to_tensor_schema (params_of image_array (KeyIdx 0) [] [] None) (image_kwargs Map.empty)
      [DENSE \<mapsto> TCallable False (7::nat)]
     = Inl (NotImplementedError (mapping_msg DENSE))"
  by (simp add: to_tensor_schema_def choose_kind_def build_schema_def get_transform_def
        params_of_def image_array_def)

subsection \<open>Slices given for the key dimension only\<close>

text \<open>
  Claim C8. When the \<^verbatim>\<open>secondary_slices\<close> mapping of a resolved instance is not empty and
  its only key is the key dimension (the dimension at position 0 of the resolved
  ordering), the resolved mapping is empty, and still \<^verbatim>\<open>to_tensor_schema\<close> raises the
  \<^verbatim>\<open>NotImplementedError\<close> about slicing whenever the chosen kind is not DENSE: the check
  reads the mapping the caller gave, not the resolved one.
\<close>

theorem key_only_slices_still_rejected:
  assumes "post_init p = Inr kw"
    and "fst ` set (secondary_slices p) = {kw_all_dims kw ! 0}"
    and "choose_kind p kw transforms = Inr k"
    and "k \<noteq> DENSE"
  shows "secondary_slices p \<noteq> []
       \<and> kw_secondary_slices kw = Map.empty
       \<and> to_tensor_schema p kw transforms = Inl (NotImplementedError slicing_msg)"
proof -
  from assms(1) obtain ff as ds nd0 ki ad nd ssi where
    sl: "slices_loop ad (secondary_slices p) Map.empty = Inr ssi"
    and kw: "kw = \<lparr> kw_array = array p, kw_key_dim_index = ki, kw_fields = ff, kw_all_dims = ad,
            kw_ned = nd, kw_secondary_slices = ssi, kw_query_attrs = as, kw_query_dims = ds \<rparr>"
    by (rule post_init_Inr)
  from assms(2) kw have keys: "fst ` set (secondary_slices p) = {ad ! 0}" by simp
  then have ne: "secondary_slices p \<noteq> []" by auto
  from keys have "ad ! 0 \<in> fst ` set (secondary_slices p)" by simp
  from slices_loop_keys [OF sl this] have "ad \<noteq> []" by auto
  then have first: "list_index ad (ad ! 0) = Some 0" by (simp add: list_index_zero)
  have "ssi i = None" for i
  proof -
    have "i = 0 \<or> (\<forall>d \<in> fst ` set (secondary_slices p). list_index ad d \<noteq> Some i)"
      using keys first by auto
    from slices_loop_other [OF sl this] show ?thesis by simp
  qed
  then have "ssi = Map.empty" by (rule ext)
  moreover from to_tensor_schema_slicing [OF assms(3)] assms(4) ne
  have "to_tensor_schema p kw transforms = Inl (NotImplementedError slicing_msg)" by simp
  ultimately show ?thesis using ne kw by simp
qed

theorem key_only_slices_still_rejected_witness:
  "post_init (params_of sparse_matrix (KeyIdx 0) [] [(''r'', SliceIndex 3)] None)
      = Inr (sparse_matrix_kwargs Map.empty)
   \<and> fst ` set (secondary_slices (params_of sparse_matrix (KeyIdx 0) [] [(''r'', SliceIndex 3)] None))
      = {kw_all_dims (sparse_matrix_kwargs Map.empty) ! 0}
   \<and> choose_kind (params_of sparse_matrix (KeyIdx 0) [] [(''r'', SliceIndex 3)] None)
        (sparse_matrix_kwargs Map.empty) (Map.empty :: tensor_kind \<rightharpoonup> nat transform)
      = Inr SPARSE_CSR
   \<and> to_tensor_schema (params_of sparse_matrix (KeyIdx 0) [] [(''r'', SliceIndex 3)] None)
        (sparse_matrix_kwargs Map.empty) (Map.empty :: tensor_kind \<rightharpoonup> nat transform)
      = Inl (NotImplementedError slicing_msg)"
proof -
  let ?p = "params_of sparse_matrix (KeyIdx 0) [] [(''r'', SliceIndex 3)] None"
  let ?kw = "sparse_matrix_kwargs Map.empty"
  let ?T = "Map.empty :: tensor_kind \<rightharpoonup> nat transform"
  have r: "post_init ?p = Inr ?kw" by (rule post_init_sparse_matrix_key)
  have s: "fst ` set (secondary_slices ?p) = {kw_all_dims ?kw ! 0}"
    by (simp add: params_of_def sparse_matrix_kwargs_def)
  have k: "choose_kind ?p ?kw ?T = Inr SPARSE_CSR" by (rule choose_kind_sparse_matrix)
  have n: "SPARSE_CSR \<noteq> DENSE" by simp
  from key_only_slices_still_rejected [OF r s k n] r s k show ?thesis by simp
qed

subsection \<open>Secondary slices for unknown dimensions\<close>

lemma find_unknown_key:
  assumes "d \<in> fst ` set ss" and "d \<notin> set ad"
  obtains d' where "find (\<lambda>d. d \<notin> set ad) (map fst ss) = Some d'"
proof -
  from assms have "find (\<lambda>d. d \<notin> set ad) (map fst ss) \<noteq> None"
    by (auto simp: find_None_iff)
  then show ?thesis using that by auto
qed

text \<open>
  Claim C10 as stated fails: with a key index beyond the dimensions the swap raises
  \<^verbatim>\<open>IndexError\<close> before the secondary slices are looked at, and on an array that was
  never written line 57 raises \<^verbatim>\<open>TypeError\<close> earlier still, so the error of an instance
  with an unknown secondary-slice key is not always a \<^verbatim>\<open>ValueError\<close>.
\<close>

theorem unknown_slice_key_counterexample:
  "''zz'' \<in> fst ` set (secondary_slices
       (params_of image_array (KeyIdx 5) [] [(''zz'', SliceIndex 0)] None))
   \<and> ''zz'' \<notin> set (map dim_name (dims (array
       (params_of image_array (KeyIdx 5) [] [(''zz'', SliceIndex 0)] None))))
   \<and> post_init (params_of image_array (KeyIdx 5) [] [(''zz'', SliceIndex 0)] None)
       = Inl IndexError
   \<and> \<not> raises_value_error
       (post_init (params_of image_array (KeyIdx 5) [] [(''zz'', SliceIndex 0)] None))
   \<and> ''zz'' \<notin> set (map dim_name (dims (array
       (params_of unwritten_array (KeyIdx 0) [] [(''zz'', SliceIndex 0)] None))))
   \<and> post_init (params_of unwritten_array (KeyIdx 0) [] [(''zz'', SliceIndex 0)] None)
       = Inl TypeError
   \<and> \<not> raises_value_error
       (post_init (params_of unwritten_array (KeyIdx 0) [] [(''zz'', SliceIndex 0)] None))"
  by (simp add: post_init_def params_of_def image_array_def unwritten_array_def
        resolve_fields_def swap_key_def swap_first_def Let_def)

text \<open>
  Claim C10, amended. When some key of \<^verbatim>\<open>secondary_slices\<close> is not a dimension name of the
  array, \<^verbatim>\<open>__post_init__\<close> always fails, so no such key survives into a resolved instance.
  The error is a \<^verbatim>\<open>TypeError\<close> exactly when the fields are all known and the array has no
  non-empty domain, an \<^verbatim>\<open>IndexError\<close> exactly when the fields are all known, the array has
  a non-empty domain and the key index is out of range for the swap, and a
  \<^verbatim>\<open>ValueError\<close> otherwise. When the fields are known, the array has a non-empty domain
  and the key selector resolves in range, it is the \<^verbatim>\<open>ValueError\<close> of the list index
  lookup for the first unknown key, whose message is \<^verbatim>\<open>repr\<close> of that key followed by
  \<^verbatim>\<open>is not in list\<close>.
\<close>

theorem unknown_slice_key_rejected:
  fixes p :: array_params
  defines "names \<equiv> map dim_name (dims (array p))"
  defines "fields_known \<equiv>
    find (unknown_field (attr_names (array p)) names) (fields_seq p) = None"
  assumes "d \<in> fst ` set (secondary_slices p)" and "d \<notin> set names"
  shows "\<exists>e. post_init p = Inl e
           \<and> (e = TypeError \<or> e = IndexError \<or> (\<exists>m. e = ValueError m))
           \<and> (e = TypeError \<longleftrightarrow> fields_known \<and> nonempty_domain (array p) = None)
           \<and> (e = IndexError \<longleftrightarrow> fields_known \<and> swap_out_of_range p)
           \<and> (fields_known \<and> nonempty_domain (array p) \<noteq> None \<and> \<not> swap_out_of_range p
                \<and> (\<forall>n. key_dim p = KeyName n \<longrightarrow> n \<in> set names) \<longrightarrow>
                (\<exists>d'. find (\<lambda>d. d \<notin> set names) (map fst (secondary_slices p)) = Some d'
                    \<and> e = ValueError (Not_in_list d')
                    \<and> message_text repr (Not_in_list d') = repr d' @ '' is not in list''))"
proof (cases "resolve_fields (attr_names (array p)) names (fields_seq p)")
  case (Inl e)
  then obtain f where f: "find (unknown_field (attr_names (array p)) names) (fields_seq p) = Some f"
    and e: "e = ValueError (Unknown_field f)"
    by (auto simp: resolve_fields_Inl)
  from Inl have "post_init p = Inl e" by (simp add: post_init_def names_def)
  with f e show ?thesis by (auto simp: fields_known_def)
next
  case (Inr t)
  obtain ff as ds where t: "t = (ff, as, ds)" by (cases t)
  with Inr have fk: fields_known by (simp add: resolve_fields_Inr fields_known_def)
  show ?thesis
  proof (cases "nonempty_domain (array p)")
    case None
    with Inr t have "post_init p = Inl TypeError" by (simp add: post_init_def names_def)
    moreover from None have "\<not> swap_out_of_range p" by (simp add: swap_out_of_range_def)
    ultimately show ?thesis using fk None by auto
  next
    case (Some nd0)
    show ?thesis
    proof (cases "key_dim_index names (key_dim p)")
      case (Inl e)
      then obtain n where n: "key_dim p = KeyName n" "n \<notin> set names"
        and e: "e = ValueError (Not_in_list n)"
        by (auto simp: key_dim_index_Inl)
      from Inr t Some Inl have "post_init p = Inl e" by (simp add: post_init_def names_def)
      moreover from Inl Some have "\<not> swap_out_of_range p"
        by (simp add: swap_out_of_range_def names_def)
      ultimately show ?thesis using e n Some by auto
    next
      case k: (Inr k)
      show ?thesis
      proof (cases "swap_key names nd0 k")
        case (Inl e)
        then have oor: "0 < k \<and> (length names \<le> nat k \<or> length nd0 \<le> nat k)"
          and e: "e = IndexError"
          by (auto simp: swap_key_Inl)
        from Inr t Some k Inl have "post_init p = Inl e" by (simp add: post_init_def names_def)
        moreover from k oor Some have "swap_out_of_range p"
          by (simp add: swap_out_of_range_def names_def ndim_def)
        ultimately show ?thesis using e fk Some by auto
      next
        case sw: (Inr u)
        obtain ad nd where u: "u = (ad, nd)" by (cases u)
        from sw u have sad: "set ad = set names" using swap_key_set by blast
        with assms(4) have "d \<notin> set ad" by simp
        with assms(3) obtain d' where
          d': "find (\<lambda>d. d \<notin> set ad) (map fst (secondary_slices p)) = Some d'"
          by (rule find_unknown_key)
        then have sl: "slices_loop ad (secondary_slices p) Map.empty
            = Inl (ValueError (Not_in_list d'))"
          by (simp add: slices_loop_Inl)
        from Inr t Some k sw u sl have "post_init p = Inl (ValueError (Not_in_list d'))"
          by (simp add: post_init_def names_def)
        moreover from sw u k Some have "\<not> swap_out_of_range p"
          by (auto simp: swap_out_of_range_def names_def ndim_def swap_key_Inr split: if_splits)
        moreover from d' sad
        have "find (\<lambda>d. d \<notin> set names) (map fst (secondary_slices p)) = Some d'" by simp
        ultimately show ?thesis using Some by auto
      qed
    qed
  qed
qed

theorem unknown_slice_key_rejected_witness:
  "''zz'' \<in> fst ` set (secondary_slices
       (params_of image_array (KeyIdx 1) [] [(''d2'', SliceIndex 0), (''zz'', SliceIndex 0)] None))
   \<and> ''zz'' \<notin> set (map dim_name (dims (array
       (params_of image_array (KeyIdx 1) [] [(''d2'', SliceIndex 0), (''zz'', SliceIndex 0)] None))))
   \<and> post_init (params_of image_array (KeyIdx 1) [] [(''d2'', SliceIndex 0), (''zz'', SliceIndex 0)] None)
       = Inl (ValueError (Not_in_list ''zz''))
   \<and> message_text plain_repr (Not_in_list ''zz'')
       = [CHR 0x27] @ ''zz'' @ [CHR 0x27] @ '' is not in list''"
proof -
  let ?p = "params_of image_array (KeyIdx 1) [] [(''d2'', SliceIndex 0), (''zz'', SliceIndex 0)] None"
  have a: "''zz'' \<in> fst ` set (secondary_slices ?p)" by (simp add: params_of_def)
  have b: "''zz'' \<notin> set (map dim_name (dims (array ?p)))"
    by (simp add: params_of_def image_array_def)
  from unknown_slice_key_rejected [OF a b, where repr = plain_repr] a b show ?thesis
    by (simp add: params_of_def image_array_def swap_out_of_range_def ndim_def unknown_field_def
          plain_repr_def)
qed

subsection \<open>The key dimension comes first\<close>

lemma post_init_image_key2:
  "post_init (params_of image_array (KeyIdx 2) [] [] None) = Inr image_kwargs_key2"
  by (simp add: post_init_def params_of_def image_array_def image_kwargs_key2_def
        resolve_fields_def swap_key_def swap_first_def Let_def)

lemma post_init_image_key1:
  "post_init (params_of image_array (KeyName ''d1'') [] [] None) = Inr image_kwargs_key1"
  by (simp add: post_init_def params_of_def image_array_def image_kwargs_key1_def
        resolve_fields_def swap_key_def swap_first_def Let_def)

lemma swap_first_map:
  assumes "k < length xs"
  shows "xs[0 := xs ! k, k := xs ! 0] = map (\<lambda>j. xs ! swap_pos k j) [0..<length xs]"
proof (rule nth_equalityI)
  show "length (xs[0 := xs ! k, k := xs ! 0]) = length (map (\<lambda>j. xs ! swap_pos k j) [0..<length xs])"
    by simp
next
  fix j assume "j < length (xs[0 := xs ! k, k := xs ! 0])"
  then have j: "j < length xs" by simp
  from assms have z: "0 < length xs" by linarith
  from j z assms show "xs[0 := xs ! k, k := xs ! 0] ! j = map (\<lambda>j. xs ! swap_pos k j) [0..<length xs] ! j"
    by (simp add: nth_list_update swap_pos_def)
qed

lemma swap_pos_zero: "swap_pos 0 j = j"
  by (simp add: swap_pos_def)

lemma map_nth_id: "map (\<lambda>j. xs ! swap_pos 0 j) [0..<length xs] = xs"
  by (simp add: swap_pos_zero map_nth)

lemma key_position_index:
  assumes "post_init p = Inr kw" and "key_position p = Some k"
  shows "kw_key_dim_index kw = int k" and "k < ndim (array p)"
proof -
  let ?ad = "map dim_name (dims (array p))"
  from assms(1) obtain ff as ds nd0 ki ad nd ssi where
    ki: "key_dim_index ?ad (key_dim p) = Inr ki"
    and kw: "kw = \<lparr> kw_array = array p, kw_key_dim_index = ki, kw_fields = ff, kw_all_dims = ad,
            kw_ned = nd, kw_secondary_slices = ssi, kw_query_attrs = as, kw_query_dims = ds \<rparr>"
    by (rule post_init_Inr)
  have "ki = int k \<and> k < ndim (array p)"
  proof (cases "key_dim p")
    case (KeyIdx i)
    with assms(2) ki show ?thesis
      by (auto simp: key_position_def split: if_splits)
  next
    case (KeyName n)
    with assms(2) have li: "list_index ?ad n = Some k" by (simp add: key_position_def)
    from list_index_Some [OF li] have "k < ndim (array p)" by (simp add: ndim_def)
    with KeyName ki li show ?thesis by simp
  qed
  with kw show "kw_key_dim_index kw = int k" and "k < ndim (array p)" by simp_all
qed

text \<open>
  Claim C1 as stated fails: with three dimensions and the last one as key, the resolver
  exchanges the first and the last dimension, which reverses the order of the two
  dimensions that are not the key.
\<close>

theorem key_first_order_counterexample:
  "post_init (params_of image_array (KeyIdx 2) [] [] None) = Inr image_kwargs_key2
   \<and> key_position (params_of image_array (KeyIdx 2) [] [] None) = Some 2
   \<and> drop 1 (kw_all_dims image_kwargs_key2) = [''d1'', ''d0'']
   \<and> without_nth 2 (map dim_name (dims image_array)) = [''d0'', ''d1'']
   \<and> \<not> others_keep_order (params_of image_array (KeyIdx 2) [] [] None) image_kwargs_key2"
proof -
  have k: "key_position (params_of image_array (KeyIdx 2) [] [] None) = Some 2"
    by (simp add: key_position_def params_of_def image_array_def ndim_def)
  have d: "drop 1 (kw_all_dims image_kwargs_key2) = [''d1'', ''d0'']"
    by (simp add: image_kwargs_key2_def)
  have w: "without_nth 2 (map dim_name (dims image_array)) = [''d0'', ''d1'']"
    by (simp add: without_nth_def image_array_def)
  have "\<not> others_keep_order (params_of image_array (KeyIdx 2) [] [] None) image_kwargs_key2"
    unfolding others_keep_order_def k using d w
    by (simp add: params_of_def)
  with post_init_image_key2 k d w show ?thesis by simp
qed

text \<open>
  Claim C1, amended. When the key selector denotes a dimension at position \<open>k\<close> (a dimension
  name, or an index from 0 up to the number of dimensions) and resolution succeeds, the key
  dimension is at position 0 of the resolved ordering, the dimension that was at position
  0 is at position \<open>k\<close>, and every other dimension keeps its position: the ordering is the
  array's with positions 0 and \<open>k\<close> exchanged. The bounds of the non-empty domain are
  reordered by the same exchange. The order of the other dimensions among themselves is
  the array's when \<open>k\<close> is 0 or 1.
\<close>

theorem key_dimension_swapped:
  fixes p :: array_params
  defines "names \<equiv> map dim_name (dims (array p))"
  assumes "post_init p = Inr kw" and "key_position p = Some k"
  shows "\<exists>ned. nonempty_domain (array p) = Some ned
       \<and> kw_key_dim_index kw = int k
       \<and> kw_all_dims kw ! 0 = names ! k
       \<and> kw_all_dims kw = map (\<lambda>j. names ! swap_pos k j) [0..<length names]
       \<and> kw_ned kw = map (\<lambda>j. ned ! swap_pos k j) [0..<length ned]
       \<and> (\<forall>n. key_dim p = KeyName n \<longrightarrow> names ! k = n)
       \<and> (k \<le> 1 \<longrightarrow> drop 1 (kw_all_dims kw) = without_nth k names)"
proof -
  from assms(2) obtain ff as ds ned ki ad nd ssi where
    ned: "nonempty_domain (array p) = Some ned"
    and sw: "swap_key names ned ki = Inr (ad, nd)"
    and kw: "kw = \<lparr> kw_array = array p, kw_key_dim_index = ki, kw_fields = ff, kw_all_dims = ad,
            kw_ned = nd, kw_secondary_slices = ssi, kw_query_attrs = as, kw_query_dims = ds \<rparr>"
    unfolding names_def by (rule post_init_Inr)
  from key_position_index [OF assms(2,3)] kw
  have ki: "ki = int k" and lt: "k < length names" by (simp_all add: ndim_def names_def)
  have lists: "ad = map (\<lambda>j. names ! swap_pos k j) [0..<length names]
             \<and> nd = map (\<lambda>j. ned ! swap_pos k j) [0..<length ned]"
  proof (cases "k = 0")
    case True
    with sw ki show ?thesis by (simp add: swap_key_Inr map_nth_id)
  next
    case False
    with sw ki have "k < length ned" "ad = names[0 := names ! k, k := names ! 0]"
      "nd = ned[0 := ned ! k, k := ned ! 0]"
      by (simp_all add: swap_key_Inr)
    with lt show ?thesis by (simp add: swap_first_map)
  qed
  from lt have z: "0 < length names" by linarith
  from lists z have first: "ad ! 0 = names ! k" by (simp add: swap_pos_def)
  have nm: "names ! k = n" if "key_dim p = KeyName n" for n
  proof -
    from that assms(3) have "list_index names n = Some k"
      by (simp add: key_position_def names_def)
    from list_index_Some [OF this] show ?thesis by simp
  qed
  have ord: "drop 1 ad = without_nth k names" if "k \<le> 1"
  proof (cases "k = 0")
    case True
    with sw ki show ?thesis by (simp add: swap_key_Inr without_nth_def)
  next
    case False
    with that have k1: "k = 1" by simp
    with lt obtain a b rest where n: "names = a # b # rest"
      by (cases names; cases "tl names") auto
    from sw ki k1 have "ad = names[0 := names ! 1, 1 := names ! 0]"
      by (simp add: swap_key_Inr)
    with n k1 show ?thesis by (simp add: without_nth_def)
  qed
  from ned ki first lists nm ord kw show ?thesis by simp
qed

theorem key_dimension_swapped_witness:
  "post_init (params_of image_array (KeyIdx 2) [] [] None) = Inr image_kwargs_key2
   \<and> key_position (params_of image_array (KeyIdx 2) [] [] None) = Some 2
   \<and> kw_all_dims image_kwargs_key2 = [''d2'', ''d1'', ''d0'']
   \<and> kw_ned image_kwargs_key2
       = [(IntCoord 0, IntCoord 5), (IntCoord 0, IntCoord 3), (IntCoord 0, IntCoord 9)]
   \<and> map (\<lambda>j. map dim_name (dims image_array) ! swap_pos 2 j) [0..<3] = [''d2'', ''d1'', ''d0'']
   \<and> post_init (params_of image_array (KeyName ''d1'') [] [] None) = Inr image_kwargs_key1
   \<and> key_position (params_of image_array (KeyName ''d1'') [] [] None) = Some 1
   \<and> drop 1 (kw_all_dims image_kwargs_key1) = [''d0'', ''d2'']
   \<and> without_nth 1 (map dim_name (dims image_array)) = [''d0'', ''d2'']"
proof -
  have k: "key_position (params_of image_array (KeyIdx 2) [] [] None) = Some 2"
    by (simp add: key_position_def params_of_def image_array_def ndim_def)
  have k1: "key_position (params_of image_array (KeyName ''d1'') [] [] None) = Some 1"
    by (simp add: key_position_def params_of_def image_array_def)
  have u: "[0..<3] = [0, 1, 2]" by (simp add: upt_rec)
  have a: "kw_all_dims image_kwargs_key2 = [''d2'', ''d1'', ''d0'']
   \<and> kw_ned image_kwargs_key2
       = [(IntCoord 0, IntCoord 5), (IntCoord 0, IntCoord 3), (IntCoord 0, IntCoord 9)]
   \<and> map (\<lambda>j. map dim_name (dims image_array) ! swap_pos 2 j) [0..<3] = [''d2'', ''d1'', ''d0'']"
    using key_dimension_swapped [OF post_init_image_key2 k]
    by (simp add: image_kwargs_key2_def image_array_def swap_pos_def u)
  have b: "drop 1 (kw_all_dims image_kwargs_key1) = [''d0'', ''d2'']
   \<and> without_nth 1 (map dim_name (dims image_array)) = [''d0'', ''d2'']"
    using key_dimension_swapped [OF post_init_image_key1 k1]
    by (simp add: image_kwargs_key1_def image_array_def without_nth_def params_of_def)
  from a b k k1 post_init_image_key2 post_init_image_key1 show ?thesis by simp
qed

end
